theory Spec2Isabelle
  imports Main "HOL-Library.Sublist"
begin

section \<open>Values shared by the modules\<close>

text \<open>
  Python strings are \<open>string\<close>; an optional argument (\<open>commit=None\<close>) is an
  \<open>option\<close>. Every exception the modelled functions can raise is a constructor of
  \<open>exn\<close>; a computation returns \<open>Inl e\<close> when it raises \<open>e\<close>. \<open>CommandError\<close>
  holds the command line and the captured error output, \<open>GitError\<close> the exception it
  was made from, \<open>OSError\<close> and \<open>IOError\<close> the error number and the path,
  \<open>FileOperationError\<close> its message. \<open>BodyError\<close> stands for whatever exception the
  caller's own code raises inside a \<open>with\<close> block.
\<close>

datatype errno = ENOENT | EEXIST | ENOTDIR | EISDIR | ENOTEMPTY | ELOOP

datatype exn =
    CommandError string string
  | GitError exn
  | TypeError
  | IndexError
  | AttributeError
  | OSError errno string
  | IOError errno string
  | ShutilError string
  | FileOperationError string
  | BodyError string

text \<open>\<open>' '.join(args)\<close> and \<open>'/'.join(args)\<close>.\<close>

fun join :: "string \<Rightarrow> string list \<Rightarrow> string" where
  "join sep [] = []"
| "join sep [x] = x"
| "join sep (x # y # ys) = x @ sep @ join sep (y # ys)"

text \<open>\<open>s.split(sep)\<close> for a one-character separator: the fields between the separators.\<close>

fun split_on :: "char \<Rightarrow> string \<Rightarrow> string list" where
  "split_on c [] = [[]]"
| "split_on c (x # xs) =
     (if x = c then [] # split_on c xs
      else (case split_on c xs of [] \<Rightarrow> [[x]] | f # fs \<Rightarrow> (x # f) # fs))"

text \<open>\<open>s.startswith(t)\<close> and \<open>s.endswith(t)\<close> for strings \<open>s\<close> and \<open>t\<close>.\<close>

definition startswith :: "string \<Rightarrow> string \<Rightarrow> bool" where
  "startswith s t = prefix t s"

definition endswith :: "string \<Rightarrow> string \<Rightarrow> bool" where
  "endswith s t = suffix t s"

section \<open>The version-control client (giza.core.git)\<close>

subsection \<open>The subprocess layer\<close>

text \<open>
  The object \<open>command()\<close> returns: its fields \<open>out\<close>, \<open>err\<close> and \<open>return_code\<close>
  are the ones the callers read.
\<close>

record proc =
  return_code :: int
  out :: string
  err :: string

text \<open>
  The machine outside the program is a value of an arbitrary type \<open>'w\<close>. Running a shell
  command line on it gives the finished process and the machine afterwards; \<open>os.path.exists\<close>
  reads it. Both are parameters of the model, so every theorem holds for every behaviour
  of the git client.
\<close>

record 'w machine =
  shell :: "string \<Rightarrow> 'w \<Rightarrow> proc \<times> 'w"
  path_exists :: "'w \<Rightarrow> string \<Rightarrow> bool"

text \<open>
  The state threaded through the git operations: the machine, and the list of git
  invocations made so far (repository path and argument list of each \<open>cmd\<close> call, oldest
  first). The list is only written, never read, by the program.
\<close>

record 'w gstate =
  world :: 'w
  trace :: "(string \<times> string list) list"

text \<open>
  Modelled from the spec: \<open>giza.tools.command.command\<close> and \<open>CommandError\<close> are imported
  by git.py and are not among the source files. The spec says of them: every operation is
  a blocking call to the underlying client, and "a non-zero exit status from that client is
  translated to a typed failure carrying the command and captured diagnostic output".
  So \<open>command\<close> runs the command line once; a non-zero return code raises
  \<open>CommandError\<close> with the command line and the captured error output, and otherwise the
  process object is returned.
\<close>

definition command :: "'w machine \<Rightarrow> string \<Rightarrow> 'w \<Rightarrow> (exn + proc) \<times> 'w" where
  "command m c w =
     (case shell m c w of (p, w') \<Rightarrow>
        if return_code p \<noteq> 0 then (Inl (CommandError c (err p)), w') else (Inr p, w'))"

subsection \<open>Sequencing computations that may raise\<close>

definition bind :: "('s \<Rightarrow> (exn + 'a) \<times> 's) \<Rightarrow> ('a \<Rightarrow> 's \<Rightarrow> (exn + 'b) \<times> 's) \<Rightarrow> 's \<Rightarrow> (exn + 'b) \<times> 's" where
  "bind f g s = (case f s of (Inl e, s') \<Rightarrow> (Inl e, s') | (Inr a, s') \<Rightarrow> g a s')"

definition return :: "'a \<Rightarrow> 's \<Rightarrow> (exn + 'a) \<times> 's" where
  "return a s = (Inr a, s)"

definition raise :: "exn \<Rightarrow> 's \<Rightarrow> (exn + 'a) \<times> 's" where
  "raise e s = (Inl e, s)"

subsection \<open>GitRepo\<close>

text \<open>
  A \<open>GitRepo\<close> object holds one attribute, \<open>self.path\<close>. (The constructor's default,
  the working directory, is not used by the callers modelled here.)
\<close>

datatype GitRepo = GitRepo (repo_path: string)

text \<open>
  \<open>cmd\<close>: join the arguments, run \<open>cd <path> ; git <args>\<close> through \<open>command\<close>,
  and re-raise a \<open>CommandError\<close> as \<open>GitError\<close> around it.
\<close>

definition cmdline :: "GitRepo \<Rightarrow> string list \<Rightarrow> string" where
  "cmdline g args = ''cd '' @ repo_path g @ '' ; git '' @ join '' '' args"

definition cmd :: "'w machine \<Rightarrow> GitRepo \<Rightarrow> string list \<Rightarrow> 'w gstate \<Rightarrow> (exn + proc) \<times> 'w gstate" where
  "cmd m g args s =
     (case command m (cmdline g args) (world s) of
        (Inl e, w') \<Rightarrow>
          (Inl (case e of CommandError c d \<Rightarrow> GitError e | _ \<Rightarrow> e),
           \<lparr>world = w', trace = trace s @ [(repo_path g, args)]\<rparr>)
      | (Inr p, w') \<Rightarrow>
          (Inr p, \<lparr>world = w', trace = trace s @ [(repo_path g, args)]\<rparr>))"

definition checkout :: "'w machine \<Rightarrow> GitRepo \<Rightarrow> string \<Rightarrow> 'w gstate \<Rightarrow> (exn + bool) \<times> 'w gstate" where
  "checkout m g ref = bind (cmd m g [''checkout'', ref]) (\<lambda>_. return True)"

definition pull :: "'w machine \<Rightarrow> GitRepo \<Rightarrow> string \<Rightarrow> string \<Rightarrow> 'w gstate \<Rightarrow> (exn + proc) \<times> 'w gstate" where
  "pull m g remote branch = cmd m g [''pull'', remote, branch]"

text \<open>\<open>current_branch\<close>: the third field of the output of \<open>git symbolic-ref HEAD\<close>;
  indexing a shorter list raises.\<close>

definition current_branch :: "'w machine \<Rightarrow> GitRepo \<Rightarrow> 'w gstate \<Rightarrow> (exn + string) \<times> 'w gstate" where
  "current_branch m g =
     bind (cmd m g [''symbolic-ref'', ''HEAD''])
       (\<lambda>p. let fs = split_on (CHR ''/'') (out p)
             in if 2 < length fs then return (fs ! 2) else raise IndexError)"

definition sha :: "'w machine \<Rightarrow> GitRepo \<Rightarrow> string \<Rightarrow> 'w gstate \<Rightarrow> (exn + string) \<times> 'w gstate" where
  "sha m g ref = bind (cmd m g [''rev-parse'', ''--verify'', ref]) (\<lambda>p. return (out p))"

definition clone :: "'w machine \<Rightarrow> GitRepo \<Rightarrow> string \<Rightarrow> string option \<Rightarrow> string option \<Rightarrow> 'w gstate \<Rightarrow> (exn + proc) \<times> 'w gstate" where
  "clone m g remote repo_path_arg branch =
     cmd m g
       ([''clone'', remote]
        @ (case branch of None \<Rightarrow> [] | Some b \<Rightarrow> [''--branch'', b])
        @ (case repo_path_arg of None \<Rightarrow> [] | Some r \<Rightarrow> [r]))"

text \<open>
  The context manager \<open>GitRepo.branch\<close> (named \<open>GitRepo_branch\<close> here, since
  \<open>branch\<close> is also the name of an argument of other functions). The statements
  before \<open>yield\<close> run on entry, the body of the \<open>with\<close> statement runs at the
  \<open>yield\<close>, the statements after it run when the body ends. An exception of the body
  is thrown into the generator at the \<open>yield\<close>, which is not inside a \<open>try\<close>: it
  leaves the generator there.
\<close>

definition GitRepo_branch :: "'w machine \<Rightarrow> GitRepo \<Rightarrow> string \<Rightarrow> ('w gstate \<Rightarrow> (exn + unit) \<times> 'w gstate) \<Rightarrow> 'w gstate \<Rightarrow> (exn + unit) \<times> 'w gstate" where
  "GitRepo_branch m g name body =
     bind (current_branch m g) (\<lambda>starting_branch.
     bind (if name \<noteq> starting_branch then checkout m g name else return True) (\<lambda>_.
     bind body (\<lambda>_.
     if name \<noteq> starting_branch
     then bind (checkout m g starting_branch) (\<lambda>_. return ())
     else return ())))"

text \<open>The other operations the handle offers, each a single \<open>cmd\<close> call.\<close>

definition fetch :: "'w machine \<Rightarrow> GitRepo \<Rightarrow> string \<Rightarrow> 'w gstate \<Rightarrow> (exn + proc) \<times> 'w gstate" where
  "fetch m g remote = cmd m g [''fetch'', remote]"

definition rebase :: "'w machine \<Rightarrow> GitRepo \<Rightarrow> string \<Rightarrow> 'w gstate \<Rightarrow> (exn + proc) \<times> 'w gstate" where
  "rebase m g onto = cmd m g [''rebase'', onto]"

definition merge :: "'w machine \<Rightarrow> GitRepo \<Rightarrow> string \<Rightarrow> 'w gstate \<Rightarrow> (exn + proc) \<times> 'w gstate" where
  "merge m g b = cmd m g [''merge'', b]"

definition create_branch :: "'w machine \<Rightarrow> GitRepo \<Rightarrow> string \<Rightarrow> string option \<Rightarrow> 'w gstate \<Rightarrow> (exn + proc) \<times> 'w gstate" where
  "create_branch m g name tracking =
     cmd m g ([''branch'', name] @ (case tracking of None \<Rightarrow> [] | Some t \<Rightarrow> [t]))"

definition remove_branch :: "'w machine \<Rightarrow> GitRepo \<Rightarrow> string \<Rightarrow> bool \<Rightarrow> 'w gstate \<Rightarrow> (exn + proc) \<times> 'w gstate" where
  "remove_branch m g name force =
     cmd m g ([''branch''] @ (if \<not> force then [''-d''] else [''-D'']) @ [name])"

text \<open>\<open>branch_exists\<close>: the whole text \<open>branch --list <name>\<close> is one argument of \<open>cmd\<close>;
  the output is split at newlines, the first empty line is dropped.\<close>

definition branch_exists :: "'w machine \<Rightarrow> GitRepo \<Rightarrow> string \<Rightarrow> 'w gstate \<Rightarrow> (exn + bool) \<times> 'w gstate" where
  "branch_exists m g name =
     bind (cmd m g [''branch --list '' @ name])
       (\<lambda>p. let r = remove1 [] (split_on (CHR 0x0A) (out p)) in return (name \<in> set r))"

text \<open>
  \<open>cherry_pick(*args)\<close>: a single argument replaces the argument tuple, so a single
  list is iterated element by element and a single string character by character.
  An argument is a string or a list of strings; joining a list into the command line
  raises \<open>TypeError\<close>.
\<close>

datatype pyarg = Str string | Seq "string list"

fun cherry_pick_each :: "'w machine \<Rightarrow> GitRepo \<Rightarrow> pyarg list \<Rightarrow> 'w gstate \<Rightarrow> (exn + unit) \<times> 'w gstate" where
  "cherry_pick_each m g [] = return ()"
| "cherry_pick_each m g (Str c # cs) =
     bind (cmd m g [''cherry-pick'', c]) (\<lambda>_. cherry_pick_each m g cs)"
| "cherry_pick_each m g (Seq l # cs) = raise TypeError"

definition cherry_pick :: "'w machine \<Rightarrow> GitRepo \<Rightarrow> pyarg list \<Rightarrow> 'w gstate \<Rightarrow> (exn + unit) \<times> 'w gstate" where
  "cherry_pick m g args =
     cherry_pick_each m g
       (case args of
          [Str x] \<Rightarrow> map (\<lambda>ch. Str [ch]) x
        | [Seq l] \<Rightarrow> map Str l
        | _ \<Rightarrow> args)"

text \<open>
  \<open>am(patches, repo=None, sign=False)\<close> does not go through \<open>cmd\<close>: it hands the pipeline
  \<open>curl <path> | git am --3way\<close> to \<open>command\<close> itself, so nothing turns a
  \<open>CommandError\<close> into a \<open>GitError\<close> here. \<open>re.search('[a-zA-Z]+', obj)\<close> asks for
  one ASCII letter in \<open>obj\<close>; \<open>'/'.join\<close> over a list holding \<open>None\<close> raises
  \<open>TypeError\<close>. The log message of the second case calls \<open>current_branch\<close>.
\<close>

definition run_command :: "'w machine \<Rightarrow> string \<Rightarrow> 'w gstate \<Rightarrow> (exn + proc) \<times> 'w gstate" where
  "run_command m c s = (case command m c (world s) of (r, w') \<Rightarrow> (r, s\<lparr>world := w'\<rparr>))"

definition ascii_letter :: "char \<Rightarrow> bool" where
  "ascii_letter c =
     (let n = (of_char c :: nat) in (65 \<le> n \<and> n \<le> 90) \<or> (97 \<le> n \<and> n \<le> 122))"

definition cmd_base :: "bool \<Rightarrow> string \<Rightarrow> string" where
  "cmd_base sign path =
     ''curl '' @ path @ '' | git am --3way'' @ (if sign then '' --signoff'' else [])"

fun am :: "'w machine \<Rightarrow> GitRepo \<Rightarrow> string list \<Rightarrow> string option \<Rightarrow> bool \<Rightarrow> 'w gstate \<Rightarrow> (exn + unit) \<times> 'w gstate" where
  "am m g [] repo sign = return ()"
| "am m g (obj # patches) repo sign =
     bind
       (if startswith obj ''http'' then
          bind (run_command m (cmd_base sign (if \<not> endswith obj ''.patch'' then obj @ ''.patch'' else obj)))
            (\<lambda>_. return ())
        else if list_ex ascii_letter obj then
          (case repo of
             None \<Rightarrow> raise TypeError
           | Some r \<Rightarrow>
               bind (run_command m (cmd_base sign (join ''/'' [r, ''commit'', obj] @ ''.patch''))) (\<lambda>_.
               bind (current_branch m g) (\<lambda>_. return ())))
        else
          (case repo of
             None \<Rightarrow> return ()
           | Some r \<Rightarrow>
               bind (run_command m (cmd_base sign (join ''/'' [r, ''pull'', obj] @ ''.patch'')))
                 (\<lambda>_. return ())))
       (\<lambda>_. am m g patches repo sign)"

section \<open>Paths (posixpath)\<close>

text \<open>
  \<open>os.path.split\<close>: the text up to and including the last slash is the head, the rest is
  the tail; trailing slashes are stripped from a head that is not made of slashes only.
  \<open>dirname\<close> and \<open>basename\<close> are its two halves.
\<close>

definition rstrip_slash :: "string \<Rightarrow> string" where
  "rstrip_slash h = rev (dropWhile (\<lambda>c. c = CHR ''/'') (rev h))"

definition path_split :: "string \<Rightarrow> string \<times> string" where
  "path_split p =
     (let tail = rev (takeWhile (\<lambda>c. c \<noteq> CHR ''/'') (rev p));
          head = take (length p - length tail) p
      in (if head \<noteq> [] \<and> \<not> list_all (\<lambda>c. c = CHR ''/'') head then rstrip_slash head else head,
          tail))"

definition dirname :: "string \<Rightarrow> string" where
  "dirname p = fst (path_split p)"

definition basename :: "string \<Rightarrow> string" where
  "basename p = snd (path_split p)"

section \<open>Synchronizing one asset (giza.content.assets)\<close>

text \<open>
  \<open>assets_setup(path, branch, repo, commit=None)\<close>. The calls of \<open>logger.info\<close> are
  left out: each formats as many arguments as its message names and changes nothing the
  function reads. In the branch for a missing path the condition is parsed by Python as
  \<open>(commit is not None and g.sha() == commit) or g.sha().startswith(commit)\<close>; \<open>and\<close> and
  \<open>or\<close> evaluate their right operand only when needed, and \<open>startswith(None)\<close> raises
  \<open>TypeError\<close>.
\<close>

definition assets_setup :: "'w machine \<Rightarrow> string \<Rightarrow> string \<Rightarrow> string \<Rightarrow> string option \<Rightarrow> 'w gstate \<Rightarrow> (exn + unit) \<times> 'w gstate" where
  "assets_setup m path branch repo commit s =
     (if path_exists m (world s) path then
        (let g = GitRepo path in
         case commit of
           None \<Rightarrow> bind (pull m g ''origin'' branch) (\<lambda>_. return ())
         | Some c \<Rightarrow>
             bind (sha m g ''HEAD'') (\<lambda>r1.
             if r1 = c then return ()
             else bind (sha m g ''HEAD'') (\<lambda>r2.
                  if startswith r2 c then return ()
                  else bind (checkout m g c) (\<lambda>_. return ())))) s
      else
        (case path_split path of (base, name) \<Rightarrow>
         let g = GitRepo base in
         bind (clone m g repo (Some name) (Some branch)) (\<lambda>_.
         bind (case commit of
                 None \<Rightarrow> return False
               | Some c \<Rightarrow> bind (sha m g ''HEAD'') (\<lambda>r1. return (r1 = c))) (\<lambda>left.
         bind (if left then return True
               else bind (sha m g ''HEAD'') (\<lambda>r2.
                    case commit of
                      None \<Rightarrow> raise TypeError
                    | Some c \<Rightarrow> return (startswith r2 c))) (\<lambda>cond.
         if cond
         then (case commit of
                 None \<Rightarrow> raise TypeError
               | Some c \<Rightarrow> bind (checkout m g c) (\<lambda>_. return ()))
         else return ())))) s)"

section \<open>The file system\<close>

text \<open>
  files.py works on the file system through \<open>os\<close>, \<open>os.path\<close>, \<open>shutil\<close> and \<open>open\<close>.
  The file system is a table from path strings to entries, and a clock. An entry is a
  regular file (its bytes and its modification time), a directory or a symbolic link (its
  target). A write stamps the file with the clock. Paths are taken as they are written:
  the table does not identify \<open>a/b/\<close> or \<open>a//b\<close> with \<open>a/b\<close>, the components
  \<open>.\<close> and \<open>..\<close> of a path or of a link's target are not resolved, a relative path is
  relative to the one working directory, whose own entries are the paths without a
  slash, and the empty path names nothing. Devices, sockets and pipes, permissions and
  hard links are outside the model.
\<close>

datatype node = File string int | Dir | Link string

record filesystem =
  entries :: "string \<Rightarrow> node option"
  now :: int

text \<open>\<open>lookup\<close> is \<open>lstat\<close>: the entry at the path itself.\<close>

definition lookup :: "filesystem \<Rightarrow> string \<Rightarrow> node option" where
  "lookup fs p = (if p = [] then None else entries fs p)"

text \<open>
  A link is followed to its target, read from the directory of the link when it does not
  start with a slash. After 40 links in a row the kernel gives up (\<open>ELOOP\<close>).
  \<open>resolve\<close> gives the path at the end of the chain, which may name nothing;
  \<open>stat\<close> gives the entry there.
\<close>

definition link_target :: "string \<Rightarrow> string \<Rightarrow> string" where
  "link_target p t =
     (if startswith t ''/'' \<or> dirname p = [] then t else dirname p @ ''/'' @ t)"

fun resolve :: "nat \<Rightarrow> filesystem \<Rightarrow> string \<Rightarrow> string option" where
  "resolve 0 fs p = (case lookup fs p of Some (Link t) \<Rightarrow> None | _ \<Rightarrow> Some p)"
| "resolve (Suc n) fs p =
     (case lookup fs p of Some (Link t) \<Rightarrow> resolve n fs (link_target p t) | _ \<Rightarrow> Some p)"

definition stat :: "filesystem \<Rightarrow> string \<Rightarrow> node option" where
  "stat fs p = (case resolve 40 fs p of None \<Rightarrow> None | Some k \<Rightarrow> lookup fs k)"

subsection \<open>os.path\<close>

definition isfile :: "filesystem \<Rightarrow> string \<Rightarrow> bool" where
  "isfile fs p = (case stat fs p of Some (File c t) \<Rightarrow> True | _ \<Rightarrow> False)"

definition isdir :: "filesystem \<Rightarrow> string \<Rightarrow> bool" where
  "isdir fs p = (case stat fs p of Some Dir \<Rightarrow> True | _ \<Rightarrow> False)"

definition islink :: "filesystem \<Rightarrow> string \<Rightarrow> bool" where
  "islink fs p = (case lookup fs p of Some (Link t) \<Rightarrow> True | _ \<Rightarrow> False)"

definition exists :: "filesystem \<Rightarrow> string \<Rightarrow> bool" where
  "exists fs p = (stat fs p \<noteq> None)"

subsection \<open>os\<close>

text \<open>
  A new entry needs its directory: the directory part of the path is empty (the working
  directory) or an existing directory.
\<close>

definition parent_ok :: "filesystem \<Rightarrow> string \<Rightarrow> bool" where
  "parent_ok fs p = (dirname p = [] \<or> isdir fs (dirname p))"

definition parent_errno :: "filesystem \<Rightarrow> string \<Rightarrow> errno" where
  "parent_errno fs p = (if exists fs (dirname p) then ENOTDIR else ENOENT)"

definition put :: "string \<Rightarrow> node option \<Rightarrow> filesystem \<Rightarrow> filesystem" where
  "put p v fs = fs\<lparr>entries := (entries fs)(p := v)\<rparr>"

definition os_mkdir :: "string \<Rightarrow> filesystem \<Rightarrow> (exn + unit) \<times> filesystem" where
  "os_mkdir p fs =
     (if p = [] then (Inl (OSError ENOENT p), fs)
      else if lookup fs p \<noteq> None then (Inl (OSError EEXIST p), fs)
      else if \<not> parent_ok fs p then (Inl (OSError (parent_errno fs p) p), fs)
      else (Inr (), put p (Some Dir) fs))"

definition os_remove :: "string \<Rightarrow> filesystem \<Rightarrow> (exn + unit) \<times> filesystem" where
  "os_remove p fs =
     (case lookup fs p of
        None \<Rightarrow> (Inl (OSError ENOENT p), fs)
      | Some Dir \<Rightarrow> (Inl (OSError EISDIR p), fs)
      | Some _ \<Rightarrow> (Inr (), put p None fs))"

text \<open>\<open>os.symlink(target, name)\<close> makes \<open>name\<close> a link to \<open>target\<close>.\<close>

definition os_symlink :: "string \<Rightarrow> string \<Rightarrow> filesystem \<Rightarrow> (exn + unit) \<times> filesystem" where
  "os_symlink target name fs =
     (if name = [] then (Inl (OSError ENOENT name), fs)
      else if lookup fs name \<noteq> None then (Inl (OSError EEXIST name), fs)
      else if \<not> parent_ok fs name then (Inl (OSError (parent_errno fs name) name), fs)
      else (Inr (), put name (Some (Link target)) fs))"

text \<open>
  \<open>os.rename(src, dst)\<close> moves the entry at \<open>src\<close> over \<open>dst\<close>, replacing a file or link
  there. The program renames links only: moving a directory (with what is below it) is
  refused here with \<open>ENOTEMPTY\<close>.
\<close>

definition os_rename :: "string \<Rightarrow> string \<Rightarrow> filesystem \<Rightarrow> (exn + unit) \<times> filesystem" where
  "os_rename src dst fs =
     (case lookup fs src of
        None \<Rightarrow> (Inl (OSError ENOENT src), fs)
      | Some Dir \<Rightarrow> (Inl (OSError ENOTEMPTY src), fs)
      | Some n \<Rightarrow>
          if dst = [] then (Inl (OSError ENOENT dst), fs)
          else if src = dst then (Inr (), fs)
          else if lookup fs dst = Some Dir then (Inl (OSError EISDIR dst), fs)
          else if \<not> parent_ok fs dst then (Inl (OSError (parent_errno fs dst) dst), fs)
          else (Inr (), put dst (Some n) (put src None fs)))"

text \<open>
  \<open>os.makedirs(name)\<close>, as the library of the interpreter the program is written for
  defines it: split off the last component (the one before it when the path ends with a
  slash); when the head is missing, make it first, letting through only an \<open>EEXIST\<close>
  failure; a last component \<open>.\<close> needs no directory of its own; then \<open>mkdir\<close>.
\<close>

definition makedirs_parts :: "string \<Rightarrow> string \<times> string" where
  "makedirs_parts name =
     (case path_split name of (head, tail) \<Rightarrow>
        if tail = [] then path_split head else (head, tail))"

lemma length_rstrip_slash: "length (rstrip_slash h) \<le> length h"
  by (simp add: rstrip_slash_def) (metis length_dropWhile_le length_rev)

lemma path_split_length:
  "path_split p = (h, t) \<Longrightarrow> length h + length t \<le> length p"
proof -
  assume a: "path_split p = (h, t)"
  let ?t = "rev (takeWhile (\<lambda>c. c \<noteq> CHR ''/'') (rev p))"
  let ?h = "take (length p - length ?t) p"
  have t: "t = ?t" using a by (simp add: path_split_def Let_def)
  have "length ?t \<le> length p"
    by (metis length_rev length_takeWhile_le)
  then have h0: "length ?h + length ?t \<le> length p" by simp
  have "h = ?h \<or> h = rstrip_slash ?h"
    using a by (auto simp: path_split_def Let_def split: if_splits)
  then have "length h \<le> length ?h"
    using length_rstrip_slash [of ?h] by auto
  with h0 t show ?thesis by simp
qed

lemma makedirs_parts_shorter:
  assumes "makedirs_parts name = (head, tail)" and "tail \<noteq> []"
  shows "length head < length name"
proof -
  obtain h0 t0 where s0: "path_split name = (h0, t0)" by (cases "path_split name")
  from path_split_length [OF s0] have l0: "length h0 + length t0 \<le> length name" .
  show ?thesis
  proof (cases "t0 = []")
    case True
    with assms s0 have s1: "path_split h0 = (head, tail)" by (simp add: makedirs_parts_def)
    from path_split_length [OF s1] assms(2) have "length head < length h0"
      by (cases tail) auto
    with l0 show ?thesis by simp
  next
    case False
    with assms s0 have "head = h0" "tail = t0" by (simp_all add: makedirs_parts_def)
    with l0 False show ?thesis by (cases t0) auto
  qed
qed

function os_makedirs :: "string \<Rightarrow> filesystem \<Rightarrow> (exn + unit) \<times> filesystem" where
  "os_makedirs name fs =
     (case makedirs_parts name of (head, tail) \<Rightarrow>
        if head \<noteq> [] \<and> tail \<noteq> [] \<and> \<not> exists fs head then
          (case os_makedirs head fs of
             (Inl (OSError e x), fs') \<Rightarrow>
               if e \<noteq> EEXIST then (Inl (OSError e x), fs')
               else if tail = ''.'' then (Inr (), fs')
               else os_mkdir name fs'
           | (Inl other, fs') \<Rightarrow> (Inl other, fs')
           | (Inr u, fs') \<Rightarrow>
               if tail = ''.'' then (Inr (), fs') else os_mkdir name fs')
        else os_mkdir name fs)"
  by pat_completeness auto
termination
  by (relation "measure (\<lambda>(name, fs). length name)") (auto dest: makedirs_parts_shorter [OF sym])

declare os_makedirs.simps [simp del]

subsection \<open>open and shutil\<close>

text \<open>\<open>open(p, 'rb').read()\<close>: the bytes of the regular file the path leads to.\<close>

definition read_file :: "string \<Rightarrow> filesystem \<Rightarrow> (exn + string) \<times> filesystem" where
  "read_file p fs =
     (case stat fs p of
        Some (File c t) \<Rightarrow> (Inr c, fs)
      | Some _ \<Rightarrow> (Inl (IOError EISDIR p), fs)
      | None \<Rightarrow> (Inl (IOError ENOENT p), fs))"

text \<open>
  \<open>open(p, 'wb')\<close> followed by writing \<open>c\<close>: the file at the end of the link chain is
  replaced, or created in a directory that must exist.
\<close>

definition write_file :: "string \<Rightarrow> string \<Rightarrow> filesystem \<Rightarrow> (exn + unit) \<times> filesystem" where
  "write_file p c fs =
     (case resolve 40 fs p of
        None \<Rightarrow> (Inl (IOError ELOOP p), fs)
      | Some k \<Rightarrow>
          if k = [] then (Inl (IOError ENOENT p), fs)
          else if lookup fs k = Some Dir then (Inl (IOError EISDIR p), fs)
          else if lookup fs k = None \<and> \<not> parent_ok fs k then
            (Inl (IOError (parent_errno fs k) p), fs)
          else (Inr (), put k (Some (File c (now fs))) fs))"

text \<open>
  \<open>shutil.copyfile(src, dst)\<close>: refuse when both paths lead to the same existing file,
  then read the source and write the destination.
\<close>

definition samefile :: "filesystem \<Rightarrow> string \<Rightarrow> string \<Rightarrow> bool" where
  "samefile fs p q = (exists fs p \<and> exists fs q \<and> resolve 40 fs p = resolve 40 fs q)"

definition copyfile :: "string \<Rightarrow> string \<Rightarrow> filesystem \<Rightarrow> (exn + unit) \<times> filesystem" where
  "copyfile src dst fs =
     (if samefile fs src dst then (Inl (ShutilError src), fs)
      else bind (read_file src) (\<lambda>c. write_file dst c) fs)"

section \<open>Content fingerprints (hashlib.md5)\<close>

text \<open>
  \<open>hashlib.md5\<close> is the MD5 function of RFC 1321. A 32-bit word is an \<open>int\<close> below
  \<open>2 ^ 32\<close>, with the wrap-around written out. The message is padded with the byte 128,
  zero bytes up to 56 modulo 64 and its length in bits as eight little-endian bytes; each
  block of 64 bytes, read as sixteen little-endian words, goes through 64 steps; the
  digest is the four state words as little-endian bytes, printed in lower-case
  hexadecimal.
\<close>

unbundle bit_operations_syntax

definition md5_K :: "int list" where
  "md5_K =
     [3614090360, 3905402710, 606105819, 3250441966,
      4118548399, 1200080426, 2821735955, 4249261313,
      1770035416, 2336552879, 4294925233, 2304563134,
      1804603682, 4254626195, 2792965006, 1236535329,
      4129170786, 3225465664, 643717713, 3921069994,
      3593408605, 38016083, 3634488961, 3889429448,
      568446438, 3275163606, 4107603335, 1163531501,
      2850285829, 4243563512, 1735328473, 2368359562,
      4294588738, 2272392833, 1839030562, 4259657740,
      2763975236, 1272893353, 4139469664, 3200236656,
      681279174, 3936430074, 3572445317, 76029189,
      3654602809, 3873151461, 530742520, 3299628645,
      4096336452, 1126891415, 2878612391, 4237533241,
      1700485571, 2399980690, 4293915773, 2240044497,
      1873313359, 4264355552, 2734768916, 1309151649,
      4149444226, 3174756917, 718787259, 3951481745]"

definition md5_S :: "nat list" where
  "md5_S =
     [7, 12, 17, 22, 7, 12, 17, 22, 7, 12, 17, 22, 7, 12, 17, 22,
      5, 9, 14, 20, 5, 9, 14, 20, 5, 9, 14, 20, 5, 9, 14, 20,
      4, 11, 16, 23, 4, 11, 16, 23, 4, 11, 16, 23, 4, 11, 16, 23,
      6, 10, 15, 21, 6, 10, 15, 21, 6, 10, 15, 21, 6, 10, 15, 21]"

definition rotl32 :: "int \<Rightarrow> nat \<Rightarrow> int" where
  "rotl32 x s = (x * 2 ^ s) mod 4294967296 + x div 2 ^ (32 - s)"

definition not32 :: "int \<Rightarrow> int" where
  "not32 x = 4294967295 - x"

definition md5_step :: "int list \<Rightarrow> int \<times> int \<times> int \<times> int \<Rightarrow> nat \<Rightarrow> int \<times> int \<times> int \<times> int" where
  "md5_step M st i =
     (case st of (a, b, c, d) \<Rightarrow>
        let f = (if i < 16 then (b AND c) OR (not32 b AND d)
                 else if i < 32 then (d AND b) OR (not32 d AND c)
                 else if i < 48 then b XOR c XOR d
                 else c XOR (b OR not32 d));
            g = (if i < 16 then i
                 else if i < 32 then (5 * i + 1) mod 16
                 else if i < 48 then (3 * i + 5) mod 16
                 else (7 * i) mod 16);
            f' = (f + a + md5_K ! i + M ! g) mod 4294967296
        in (d, (b + rotl32 f' (md5_S ! i)) mod 4294967296, b, c))"

definition le_word :: "int list \<Rightarrow> nat \<Rightarrow> int" where
  "le_word bs j = bs ! (4 * j) + 256 * bs ! (4 * j + 1) + 65536 * bs ! (4 * j + 2) + 16777216 * bs ! (4 * j + 3)"

definition md5_block :: "int \<times> int \<times> int \<times> int \<Rightarrow> int list \<Rightarrow> int \<times> int \<times> int \<times> int" where
  "md5_block st block =
     (case st of (a0, b0, c0, d0) \<Rightarrow>
      case foldl (md5_step (map (le_word block) [0..<16])) st [0..<64] of (a, b, c, d) \<Rightarrow>
        ((a0 + a) mod 4294967296, (b0 + b) mod 4294967296,
         (c0 + c) mod 4294967296, (d0 + d) mod 4294967296))"

definition md5_pad :: "int list \<Rightarrow> int list" where
  "md5_pad bs =
     bs @ [128] @ replicate ((119 - length bs mod 64) mod 64) 0
        @ map (\<lambda>j. (8 * int (length bs)) div 256 ^ j mod 256) [0..<8]"

definition md5_blocks :: "int list \<Rightarrow> int list list" where
  "md5_blocks bs = map (\<lambda>i. take 64 (drop (64 * i) bs)) [0..<length bs div 64]"

definition hex_digit :: "int \<Rightarrow> char" where
  "hex_digit n = ''0123456789abcdef'' ! nat n"

definition hex_byte :: "int \<Rightarrow> string" where
  "hex_byte b = [hex_digit (b div 16), hex_digit (b mod 16)]"

definition le_bytes :: "int \<Rightarrow> int list" where
  "le_bytes w = map (\<lambda>j. w div 256 ^ j mod 256) [0..<4]"

text \<open>\<open>hashlib.md5(s).hexdigest()\<close>.\<close>

definition md5_hexdigest :: "string \<Rightarrow> string" where
  "md5_hexdigest s =
     (case foldl md5_block (1732584193, 4023233417, 2562383102, 271733878)
             (md5_blocks (md5_pad (map of_char s))) of
        (a, b, c, d) \<Rightarrow> concat (map hex_byte (le_bytes a @ le_bytes b @ le_bytes c @ le_bytes d)))"

section \<open>Materializing files (giza.tools.files)\<close>

text \<open>
  \<open>template.format(*args)\<close> for the templates of this module, whose fields are
  \<open>{0}\<close> to \<open>{9}\<close>: a field is replaced by the argument of that index, and an index
  beyond the arguments raises \<open>IndexError\<close>.
\<close>

definition prepend :: "string \<Rightarrow> exn + string \<Rightarrow> exn + string" where
  "prepend s r = (case r of Inl x \<Rightarrow> Inl x | Inr t \<Rightarrow> Inr (s @ t))"

fun py_format :: "string \<Rightarrow> string list \<Rightarrow> exn + string" where
  "py_format (c # d # e # rest) args =
     (if c = CHR ''{'' \<and> e = CHR ''}'' \<and> 48 \<le> (of_char d :: nat) \<and> (of_char d :: nat) \<le> 57 then
        (if of_char d - 48 < length args
         then prepend (args ! (of_char d - 48)) (py_format rest args)
         else Inl IndexError)
      else prepend [c] (py_format (d # e # rest) args))"
| "py_format (c # cs) args = prepend [c] (py_format cs args)"
| "py_format [] args = Inr []"

text \<open>\<open>str(name)\<close> of an optional name, as \<open>format\<close> prints it.\<close>

definition py_str :: "string option \<Rightarrow> string" where
  "py_str name = (case name of None \<Rightarrow> ''None'' | Some n \<Rightarrow> n)"

text \<open>
  \<open>msg = template.format(...); logger.critical(msg); raise FileOperationError(msg)\<close>:
  when the formatting raises, its exception is the one that leaves the function.
\<close>

definition raise_FileOperationError :: "string \<Rightarrow> string list \<Rightarrow> 's \<Rightarrow> (exn + 'a) \<times> 's" where
  "raise_FileOperationError template args =
     (case py_format template args of
        Inl e \<Rightarrow> raise e
      | Inr msg \<Rightarrow> raise (FileOperationError msg))"

text \<open>
  \<open>safe_create_directory(path)\<close>: \<open>True\<close> when \<open>os.makedirs\<close> made the directory,
  \<open>None\<close> when it failed and the path is a directory. In the handler the next test reads
  the attribute \<open>os.path.isfie\<close>, which the module does not have: the attribute lookup
  raises \<open>AttributeError\<close> before either \<open>raise e\<close> is reached. The function is written
  around the call of \<open>os.makedirs\<close>, given as \<open>mk\<close>, so that it can be studied for any
  outcome of that call.
\<close>

definition safe_create_directory_with ::
  "(string \<Rightarrow> filesystem \<Rightarrow> (exn + unit) \<times> filesystem) \<Rightarrow> string \<Rightarrow> filesystem \<Rightarrow> (exn + bool option) \<times> filesystem" where
  "safe_create_directory_with mk path fs =
     (case mk path fs of
        (Inr u, fs') \<Rightarrow> (Inr (Some True), fs')
      | (Inl (OSError e x), fs') \<Rightarrow>
          if isdir fs' path then (Inr None, fs') else (Inl AttributeError, fs')
      | (Inl other, fs') \<Rightarrow> (Inl other, fs'))"

definition safe_create_directory :: "string \<Rightarrow> filesystem \<Rightarrow> (exn + bool option) \<times> filesystem" where
  "safe_create_directory = safe_create_directory_with os_makedirs"

text \<open>\<open>symlink(name, target)\<close>, on a platform that has \<open>os.symlink\<close>.\<close>

definition symlink :: "string \<Rightarrow> string \<Rightarrow> filesystem \<Rightarrow> (exn + unit) \<times> filesystem" where
  "symlink name target fs =
     (if \<not> islink fs name then os_symlink target name fs else (Inr (), fs))"

text \<open>
  \<open>md5_file(file)\<close>: the file is read in chunks of \<open>128 * md5.block_size\<close> bytes until a
  read returns nothing; each chunk is fed to the hash object, which is modelled by the
  bytes fed so far.
\<close>

function read_chunks :: "nat \<Rightarrow> string \<Rightarrow> string \<Rightarrow> string" where
  "read_chunks n rest fed =
     (if take n rest = [] then fed else read_chunks n (drop n rest) (fed @ take n rest))"
  by pat_completeness auto
termination
  by (relation "measure (\<lambda>(n, rest, fed). length rest)") auto

declare read_chunks.simps [simp del]

definition md5_file :: "string \<Rightarrow> filesystem \<Rightarrow> (exn + string) \<times> filesystem" where
  "md5_file file =
     bind (read_file file) (\<lambda>c. return (md5_hexdigest (read_chunks (128 * 64) c [])))"

definition copy_always :: "string \<Rightarrow> string \<Rightarrow> string option \<Rightarrow> filesystem \<Rightarrow> (exn + unit) \<times> filesystem" where
  "copy_always source_file target_file name fs =
     (if \<not> isfile fs source_file then
        raise_FileOperationError ''{0}: Input file '{1}' does not exist.''
          [py_str name, source_file] fs
      else
        bind (safe_create_directory (dirname target_file))
          (\<lambda>_. copyfile source_file target_file) fs)"

definition copy_if_needed :: "string \<Rightarrow> string \<Rightarrow> string option \<Rightarrow> filesystem \<Rightarrow> (exn + unit) \<times> filesystem" where
  "copy_if_needed source_file target_file name fs =
     (if \<not> isfile fs source_file \<or> isdir fs source_file then
        raise_FileOperationError ''{0}: Input file '{1}' does not exist.''
          [py_str name, source_file] fs
      else if \<not> isfile fs target_file then
        bind (safe_create_directory (dirname target_file))
          (\<lambda>_. copyfile source_file target_file) fs
      else
        bind (md5_file source_file) (\<lambda>a.
        bind (md5_file target_file) (\<lambda>b.
        if a = b then return () else copyfile source_file target_file)) fs)"

text \<open>
  \<open>create_link(input_fn, output_fn)\<close>. The message for a directory at the target names
  field \<open>{1}\<close> and is given one argument.
\<close>

definition create_link :: "string \<Rightarrow> string \<Rightarrow> filesystem \<Rightarrow> (exn + unit) \<times> filesystem" where
  "create_link input_fn output_fn =
     bind (if dirname output_fn \<noteq> []
           then bind (safe_create_directory (dirname output_fn)) (\<lambda>_. return ())
           else return ()) (\<lambda>_.
     bind (\<lambda>fs.
            if islink fs output_fn then os_remove output_fn fs
            else if isdir fs output_fn then
              raise_FileOperationError ''link: {1} exists and is a directory'' [output_fn] fs
            else if exists fs output_fn then
              raise_FileOperationError ''could not create a symlink at {1}.'' [''link'', output_fn] fs
            else return () fs) (\<lambda>_.
     if basename output_fn = [] then
       raise_FileOperationError ''could not create a symlink at {1}.'' [''link'', output_fn]
     else
       bind (symlink (basename output_fn) input_fn) (\<lambda>_.
       os_rename (basename output_fn) output_fn)))"

section \<open>Vocabulary of the properties\<close>

subsection \<open>Git invocations\<close>

text \<open>
  A git invocation is a pair of the repository path and the argument list. Its subcommand
  is the first argument; \<open>rev-parse\<close> and \<open>symbolic-ref\<close> only read the repository,
  every other subcommand counts as mutating. \<open>performed s s'\<close> are the invocations made
  between the states \<open>s\<close> and \<open>s'\<close>.
\<close>

definition subcommand :: "string \<times> string list \<Rightarrow> string" where
  "subcommand c = (case snd c of [] \<Rightarrow> [] | a # _ \<Rightarrow> a)"

definition is_pull :: "string \<times> string list \<Rightarrow> bool" where
  "is_pull c = (subcommand c = ''pull'')"

definition mutating :: "string \<times> string list \<Rightarrow> bool" where
  "mutating c = (subcommand c \<notin> {''rev-parse'', ''symbolic-ref''})"

definition performed :: "'w gstate \<Rightarrow> 'w gstate \<Rightarrow> (string \<times> string list) list" where
  "performed s s' = drop (length (trace s)) (trace s')"

text \<open>\<open>emits_only P f\<close>: whatever the state, \<open>f\<close> makes only invocations that satisfy \<open>P\<close>.\<close>

definition emits_only :: "(string \<times> string list \<Rightarrow> bool) \<Rightarrow> ('w gstate \<Rightarrow> (exn + 'a) \<times> 'w gstate) \<Rightarrow> bool" where
  "emits_only P f = (\<forall>s. \<exists>cs. trace (snd (f s)) = trace s @ cs \<and> list_all P cs)"

text \<open>
  \<open>replay m cs w\<close> is the machine after the client has been run, from the machine \<open>w\<close>,
  on the command line of each invocation of \<open>cs\<close> in turn. \<open>runs_client m f\<close>: whatever
  the state, the machine after \<open>f\<close> is the machine before it with the client run on
  each invocation that \<open>f\<close> has made, in order: \<open>f\<close> changes the machine by running the
  client and in no other way, and it runs the client for every invocation it records.
\<close>

fun replay :: "'w machine \<Rightarrow> (string \<times> string list) list \<Rightarrow> 'w \<Rightarrow> 'w" where
  "replay m [] w = w"
| "replay m (c # cs) w = replay m cs (snd (shell m (cmdline (GitRepo (fst c)) (snd c)) w))"

definition runs_client :: "'w machine \<Rightarrow> ('w gstate \<Rightarrow> (exn + 'a) \<times> 'w gstate) \<Rightarrow> bool" where
  "runs_client m f =
     (\<forall>s. \<exists>cs. trace (snd (f s)) = trace s @ cs \<and> world (snd (f s)) = replay m cs (world s))"

text \<open>
  \<open>client_failure m g args s r\<close>: the outcome \<open>r\<close> is the \<open>GitError\<close> around the
  \<open>CommandError\<close> that holds the command line and the error output of the one run of
  \<open>git args\<close> from state \<open>s\<close>, and the state of \<open>r\<close> is the state after that one run.
\<close>

definition client_failure :: "'w machine \<Rightarrow> GitRepo \<Rightarrow> string list \<Rightarrow> 'w gstate \<Rightarrow> (exn + 'a) \<times> 'w gstate \<Rightarrow> bool" where
  "client_failure m g args s r =
     (case shell m (cmdline g args) (world s) of (p, w') \<Rightarrow>
        r = (Inl (GitError (CommandError (cmdline g args) (err p))),
             \<lparr>world = w', trace = trace s @ [(repo_path g, args)]\<rparr>))"

subsection \<open>Machines for the examples\<close>

text \<open>
  \<open>fixed_machine\<close>: every command succeeds and prints the same revision.
  \<open>failing_machine\<close>: every command exits with status 128.
  \<open>branch_machine\<close>: the machine is the name of the checked-out branch of the repository
  in \<open>repo\<close>; \<open>symbolic-ref HEAD\<close> prints it and \<open>checkout\<close> changes it.
  \<open>recording_machine\<close>: the machine is the list of the command lines the shell has been
  given so far; every command succeeds, prints the same revision, and is added to the list.
\<close>

definition ok :: "string \<Rightarrow> proc" where
  "ok t = \<lparr>return_code = 0, out = t, err = []\<rparr>"

definition fixed_machine :: "bool \<Rightarrow> string \<Rightarrow> unit machine" where
  "fixed_machine present revision = \<lparr>shell = (\<lambda>c w. (ok revision, w)), path_exists = (\<lambda>w p. present)\<rparr>"

definition failing_machine :: "unit machine" where
  "failing_machine =
     \<lparr>shell = (\<lambda>c w. (\<lparr>return_code = 128, out = [], err = ''fatal: not a git repository''\<rparr>, w)),
      path_exists = (\<lambda>w p. True)\<rparr>"

definition branch_machine :: "string machine" where
  "branch_machine =
     \<lparr>shell = (\<lambda>c w.
        if c = ''cd repo ; git symbolic-ref HEAD'' then (ok (''refs/heads/'' @ w), w)
        else if prefix ''cd repo ; git checkout '' c then (ok [], drop 23 c)
        else (ok [], w)),
      path_exists = (\<lambda>w p. True)\<rparr>"

definition recording_machine :: "bool \<Rightarrow> string \<Rightarrow> string list machine" where
  "recording_machine present revision =
     \<lparr>shell = (\<lambda>c w. (ok revision, w @ [c])), path_exists = (\<lambda>w p. present)\<rparr>"

subsection \<open>File systems\<close>

text \<open>\<open>extends fs fs'\<close>: every entry of \<open>fs\<close> is still in \<open>fs'\<close>, at the same time.\<close>

definition extends :: "filesystem \<Rightarrow> filesystem \<Rightarrow> bool" where
  "extends fs fs' = (now fs' = now fs \<and> (\<forall>q v. lookup fs q = Some v \<longrightarrow> lookup fs' q = Some v))"

text \<open>
  \<open>dir_in_place fs d\<close>: the directory part \<open>d\<close> of a target needs nothing done: it is
  empty (the target is in the working directory), or \<open>safe_create_directory\<close> finds the
  directory there, returning \<open>None\<close> and leaving the file system as it is.
\<close>

definition dir_in_place :: "filesystem \<Rightarrow> string \<Rightarrow> bool" where
  "dir_in_place fs d = (d = [] \<or> safe_create_directory d fs = (Inr None, fs))"

subsection \<open>File systems for the examples\<close>

text \<open>
  \<open>demo_fs\<close>: a source file \<open>src.txt\<close> in the working directory, and a directory
  \<open>build\<close> holding an older copy, an identical copy, an unrelated plain file, a
  directory and a symbolic link.
\<close>

definition demo_fs :: filesystem where
  "demo_fs =
     \<lparr>entries = [''src.txt'' \<mapsto> File ''new text'' 10,
                 ''build'' \<mapsto> Dir,
                 ''build/out.txt'' \<mapsto> File ''old text'' 5,
                 ''build/same.txt'' \<mapsto> File ''new text'' 7,
                 ''build/plain'' \<mapsto> File ''x'' 1,
                 ''build/dir'' \<mapsto> Dir,
                 ''build/link'' \<mapsto> Link ''../old.txt''],
      now = 100\<rparr>"

text \<open>
  Two different files of 128 bytes with the same MD5 fingerprint (the collision published
  by Wang and Yu in 2004), and a file system holding them.
\<close>

definition collision_a :: string where
  "collision_a =
     map char_of
       ([209, 49, 221, 2, 197, 230, 238, 196, 105, 61, 154, 6, 152, 175, 249, 92,
         47, 202, 181, 135, 18, 70, 126, 171, 64, 4, 88, 62, 184, 251, 127, 137,
         85, 173, 52, 6, 9, 244, 179, 2, 131, 228, 136, 131, 37, 113, 65, 90,
         8, 81, 37, 232, 247, 205, 201, 159, 217, 29, 189, 242, 128, 55, 60, 91,
         216, 130, 62, 49, 86, 52, 143, 91, 174, 109, 172, 212, 54, 201, 25, 198,
         221, 83, 226, 180, 135, 218, 3, 253, 2, 57, 99, 6, 210, 72, 205, 160,
         233, 159, 51, 66, 15, 87, 126, 232, 206, 84, 182, 112, 128, 168, 13, 30,
         198, 152, 33, 188, 182, 168, 131, 147, 150, 249, 101, 43, 111, 247, 42, 112] :: nat list)"

definition collision_b :: string where
  "collision_b =
     map char_of
       ([209, 49, 221, 2, 197, 230, 238, 196, 105, 61, 154, 6, 152, 175, 249, 92,
         47, 202, 181, 7, 18, 70, 126, 171, 64, 4, 88, 62, 184, 251, 127, 137,
         85, 173, 52, 6, 9, 244, 179, 2, 131, 228, 136, 131, 37, 241, 65, 90,
         8, 81, 37, 232, 247, 205, 201, 159, 217, 29, 189, 114, 128, 55, 60, 91,
         216, 130, 62, 49, 86, 52, 143, 91, 174, 109, 172, 212, 54, 201, 25, 198,
         221, 83, 226, 52, 135, 218, 3, 253, 2, 57, 99, 6, 210, 72, 205, 160,
         233, 159, 51, 66, 15, 87, 126, 232, 206, 84, 182, 112, 128, 40, 13, 30,
         198, 152, 33, 188, 182, 168, 131, 147, 150, 249, 101, 171, 111, 247, 42, 112] :: nat list)"

definition collision_fs :: filesystem where
  "collision_fs =
     \<lparr>entries = [''a.bin'' \<mapsto> File collision_a 1, ''b.bin'' \<mapsto> File collision_b 2],
      now = 100\<rparr>"

section \<open>Properties of the version-control client and of the synchronizer\<close>

subsection \<open>One run of the client\<close>

lemma cmd_eq:
  "cmd m g args s =
     (if return_code (fst (shell m (cmdline g args) (world s))) \<noteq> 0
      then Inl (GitError (CommandError (cmdline g args) (err (fst (shell m (cmdline g args) (world s))))))
      else Inr (fst (shell m (cmdline g args) (world s))),
      \<lparr>world = snd (shell m (cmdline g args) (world s)), trace = trace s @ [(repo_path g, args)]\<rparr>)"
  by (simp add: cmd_def command_def split: prod.splits)

lemma sha_trace: "trace (snd (sha m g r s)) = trace s @ [(repo_path g, [''rev-parse'', ''--verify'', r])]"
  by (simp add: sha_def bind_def cmd_eq return_def)

lemma checkout_trace: "trace (snd (checkout m g r s)) = trace s @ [(repo_path g, [''checkout'', r])]"
  by (simp add: checkout_def bind_def cmd_eq return_def)

subsection \<open>Invocations of a composed operation\<close>

lemma emits_only_return: "emits_only P (return a)"
  by (simp add: emits_only_def return_def)

lemma emits_only_raise: "emits_only P (raise e)"
  by (simp add: emits_only_def raise_def)

lemma emits_only_cmd: "P (repo_path g, args) \<Longrightarrow> emits_only P (cmd m g args)"
  by (simp add: emits_only_def cmd_eq)

lemma emits_only_bind:
  assumes f: "emits_only P f" and g: "\<And>a. emits_only P (g a)"
  shows "emits_only P (bind f g)"
  unfolding emits_only_def
proof
  fix s
  obtain x s1 where fs: "f s = (x, s1)" by (cases "f s")
  from f obtain cs where cs: "trace (snd (f s)) = trace s @ cs" "list_all P cs"
    unfolding emits_only_def by blast
  show "\<exists>cs. trace (snd (bind f g s)) = trace s @ cs \<and> list_all P cs"
  proof (cases x)
    case (Inl e)
    with fs cs show ?thesis by (auto simp: bind_def)
  next
    case (Inr a)
    from g [of a] obtain ds where ds: "trace (snd (g a s1)) = trace s1 @ ds" "list_all P ds"
      unfolding emits_only_def by blast
    from fs cs ds Inr have "trace (snd (bind f g s)) = trace s @ (cs @ ds)" "list_all P (cs @ ds)"
      by (simp_all add: bind_def)
    then show ?thesis by blast
  qed
qed

lemma emits_only_if:
  "emits_only P f \<Longrightarrow> emits_only P g \<Longrightarrow> emits_only P (if b then f else g)"
  by simp

lemma emits_only_option:
  "emits_only P f \<Longrightarrow> (\<And>x. emits_only P (g x)) \<Longrightarrow> emits_only P (case_option f g v)"
  by (cases v) simp_all

lemmas emits_only_intros =
  emits_only_bind emits_only_if emits_only_option emits_only_return emits_only_raise emits_only_cmd

lemma emits_onlyD:
  "emits_only P f \<Longrightarrow> filter (\<lambda>c. \<not> P c) (performed s (snd (f s))) = []"
  unfolding emits_only_def performed_def
proof -
  assume "\<forall>s. \<exists>cs. trace (snd (f s)) = trace s @ cs \<and> list_all P cs"
  then obtain cs where "trace (snd (f s)) = trace s @ cs" "list_all P cs" by blast
  then show "filter (\<lambda>c. \<not> P c) (drop (length (trace s)) (trace (snd (f s)))) = []"
    by (simp add: list_all_iff filter_empty_conv)
qed

subsection \<open>Pull\<close>

lemma pull_present_unpinned:
  "path_exists m (world s) path \<Longrightarrow>
   performed s (snd (assets_setup m path branch repo None s)) = [(path, [''pull'', ''origin'', branch])]"
  by (simp add: assets_setup_def performed_def bind_def return_def pull_def cmd_eq)

lemma not_pull: "a \<noteq> ''pull'' \<Longrightarrow> \<not> is_pull (p, a # as)"
  by (simp add: is_pull_def subcommand_def)

lemma no_pull_present_pinned:
  "path_exists m (world s) path \<Longrightarrow>
   filter is_pull (performed s (snd (assets_setup m path branch repo (Some c) s))) = []"
proof -
  assume present: "path_exists m (world s) path"
  let ?f = "bind (sha m (GitRepo path) ''HEAD'') (\<lambda>r1.
             if r1 = c then return ()
             else bind (sha m (GitRepo path) ''HEAD'') (\<lambda>r2.
                  if startswith r2 c then return ()
                  else bind (checkout m (GitRepo path) c) (\<lambda>_. return ())))"
  have "emits_only (\<lambda>c. \<not> is_pull c) ?f"
    unfolding sha_def checkout_def
    by (intro emits_only_intros) (simp_all add: not_pull)
  from emits_onlyD [OF this, of s] present show ?thesis
    by (simp add: assets_setup_def Let_def)
qed

lemma no_pull_missing:
  "\<not> path_exists m (world s) path \<Longrightarrow>
   filter is_pull (performed s (snd (assets_setup m path branch repo commit s))) = []"
proof -
  assume missing: "\<not> path_exists m (world s) path"
  obtain base name where sp: "path_split path = (base, name)"
    by (cases "path_split path")
  let ?g = "GitRepo base"
  let ?f = "bind (clone m ?g repo (Some name) (Some branch)) (\<lambda>_.
         bind (case commit of
                 None \<Rightarrow> return False
               | Some c \<Rightarrow> bind (sha m ?g ''HEAD'') (\<lambda>r1. return (r1 = c))) (\<lambda>left.
         bind (if left then return True
               else bind (sha m ?g ''HEAD'') (\<lambda>r2.
                    case commit of
                      None \<Rightarrow> raise TypeError
                    | Some c \<Rightarrow> return (startswith r2 c))) (\<lambda>cond.
         if cond
         then (case commit of
                 None \<Rightarrow> raise TypeError
               | Some c \<Rightarrow> bind (checkout m ?g c) (\<lambda>_. return ()))
         else return ())))"
  have "emits_only (\<lambda>c. \<not> is_pull c) ?f"
    unfolding sha_def checkout_def clone_def
    by (intro emits_only_intros) (simp_all add: not_pull)
  from emits_onlyD [OF this, of s] missing sp show ?thesis
    by (simp add: assets_setup_def Let_def)
qed

subsection \<open>Every invocation is a run of the client\<close>

lemma replay_append: "replay m (cs @ ds) w = replay m ds (replay m cs w)"
  by (induction cs arbitrary: w) simp_all

lemma runs_client_return: "runs_client m (return a)"
  by (simp add: runs_client_def return_def)

lemma runs_client_raise: "runs_client m (raise e)"
  by (simp add: runs_client_def raise_def)

lemma runs_client_cmd: "runs_client m (cmd m g args)"
  unfolding runs_client_def
proof
  fix s
  have "trace (snd (cmd m g args s)) = trace s @ [(repo_path g, args)]
      \<and> world (snd (cmd m g args s)) = replay m [(repo_path g, args)] (world s)"
    by (simp add: cmd_eq)
  then show "\<exists>cs. trace (snd (cmd m g args s)) = trace s @ cs
      \<and> world (snd (cmd m g args s)) = replay m cs (world s)" by blast
qed

lemma runs_client_bind:
  assumes f: "runs_client m f" and g: "\<And>a. runs_client m (g a)"
  shows "runs_client m (bind f g)"
  unfolding runs_client_def
proof
  fix s
  obtain x s1 where fs: "f s = (x, s1)" by (cases "f s")
  from f obtain cs where cs: "trace (snd (f s)) = trace s @ cs"
      "world (snd (f s)) = replay m cs (world s)"
    unfolding runs_client_def by blast
  show "\<exists>cs. trace (snd (bind f g s)) = trace s @ cs
      \<and> world (snd (bind f g s)) = replay m cs (world s)"
  proof (cases x)
    case (Inl e)
    with fs cs show ?thesis by (auto simp: bind_def)
  next
    case (Inr a)
    from g [of a] obtain ds where ds: "trace (snd (g a s1)) = trace s1 @ ds"
        "world (snd (g a s1)) = replay m ds (world s1)"
      unfolding runs_client_def by blast
    from fs cs ds Inr have "trace (snd (bind f g s)) = trace s @ (cs @ ds)"
        "world (snd (bind f g s)) = replay m (cs @ ds) (world s)"
      by (simp_all add: bind_def replay_append)
    then show ?thesis by blast
  qed
qed

lemma runs_client_if:
  "runs_client m f \<Longrightarrow> runs_client m g \<Longrightarrow> runs_client m (if b then f else g)"
  by simp

lemma runs_client_option:
  "runs_client m f \<Longrightarrow> (\<And>x. runs_client m (g x)) \<Longrightarrow> runs_client m (case_option f g v)"
  by (cases v) simp_all

lemmas runs_client_intros =
  runs_client_bind runs_client_if runs_client_option runs_client_return runs_client_raise
  runs_client_cmd

lemma runs_clientD:
  assumes "runs_client m f"
  shows "world (snd (f s)) = replay m (performed s (snd (f s))) (world s)"
proof -
  from assms obtain cs where "trace (snd (f s)) = trace s @ cs"
      "world (snd (f s)) = replay m cs (world s)"
    unfolding runs_client_def by blast
  then show ?thesis by (simp add: performed_def)
qed

lemma assets_setup_runs_client:
  "world (snd (assets_setup m path branch repo commit s))
     = replay m (performed s (snd (assets_setup m path branch repo commit s))) (world s)"
proof (cases "path_exists m (world s) path")
  case True
  let ?g = "GitRepo path"
  let ?f = "case commit of
           None \<Rightarrow> bind (pull m ?g ''origin'' branch) (\<lambda>_. return ())
         | Some c \<Rightarrow>
             bind (sha m ?g ''HEAD'') (\<lambda>r1.
             if r1 = c then return ()
             else bind (sha m ?g ''HEAD'') (\<lambda>r2.
                  if startswith r2 c then return ()
                  else bind (checkout m ?g c) (\<lambda>_. return ())))"
  have "runs_client m ?f"
    unfolding sha_def checkout_def pull_def
    by (intro runs_client_intros)
  from runs_clientD [OF this, of s] True show ?thesis
    by (simp add: assets_setup_def Let_def)
next
  case False
  obtain base name where sp: "path_split path = (base, name)"
    by (cases "path_split path")
  let ?g = "GitRepo base"
  let ?f = "bind (clone m ?g repo (Some name) (Some branch)) (\<lambda>_.
         bind (case commit of
                 None \<Rightarrow> return False
               | Some c \<Rightarrow> bind (sha m ?g ''HEAD'') (\<lambda>r1. return (r1 = c))) (\<lambda>left.
         bind (if left then return True
               else bind (sha m ?g ''HEAD'') (\<lambda>r2.
                    case commit of
                      None \<Rightarrow> raise TypeError
                    | Some c \<Rightarrow> return (startswith r2 c))) (\<lambda>cond.
         if cond
         then (case commit of
                 None \<Rightarrow> raise TypeError
               | Some c \<Rightarrow> bind (checkout m ?g c) (\<lambda>_. return ()))
         else return ())))"
  have "runs_client m ?f"
    unfolding sha_def checkout_def clone_def
    by (intro runs_client_intros)
  from runs_clientD [OF this, of s] False sp show ?thesis
    by (simp add: assets_setup_def Let_def)
qed

lemma pull_runs_the_client:
  "pull m g remote branch s
     = (if return_code (fst (shell m (cmdline g [''pull'', remote, branch]) (world s))) \<noteq> 0
        then Inl (GitError (CommandError (cmdline g [''pull'', remote, branch])
                   (err (fst (shell m (cmdline g [''pull'', remote, branch]) (world s))))))
        else Inr (fst (shell m (cmdline g [''pull'', remote, branch]) (world s))),
        \<lparr>world = snd (shell m (cmdline g [''pull'', remote, branch]) (world s)),
         trace = trace s @ [(repo_path g, [''pull'', remote, branch])]\<rparr>)"
  by (simp add: pull_def cmd_eq)

lemma checkout_runs_the_client:
  "checkout m g ref s
     = (if return_code (fst (shell m (cmdline g [''checkout'', ref]) (world s))) \<noteq> 0
        then Inl (GitError (CommandError (cmdline g [''checkout'', ref])
                   (err (fst (shell m (cmdline g [''checkout'', ref]) (world s))))))
        else Inr True,
        \<lparr>world = snd (shell m (cmdline g [''checkout'', ref]) (world s)),
         trace = trace s @ [(repo_path g, [''checkout'', ref])]\<rparr>)"
  by (simp add: checkout_def bind_def return_def cmd_eq)

lemma present_unpinned_runs_pull:
  "path_exists m (world s) path \<Longrightarrow>
   assets_setup m path branch repo None s
     = (if return_code (fst (shell m (cmdline (GitRepo path) [''pull'', ''origin'', branch]) (world s))) \<noteq> 0
        then Inl (GitError (CommandError (cmdline (GitRepo path) [''pull'', ''origin'', branch])
                   (err (fst (shell m (cmdline (GitRepo path) [''pull'', ''origin'', branch]) (world s))))))
        else Inr (),
        \<lparr>world = snd (shell m (cmdline (GitRepo path) [''pull'', ''origin'', branch]) (world s)),
         trace = trace s @ [(path, [''pull'', ''origin'', branch])]\<rparr>)"
  by (simp add: assets_setup_def bind_def return_def pull_runs_the_client)

text \<open>
  Claim C6. \<open>assets_setup\<close> performs a pull exactly when the local path exists and no
  revision is pinned. The pulls among the invocations of a call are the single
  \<open>pull origin <branch>\<close> in the repository at the path in that case, and there is none
  in any other case, so none whenever a revision is pinned. The invocations are runs of
  the client: the machine after the call is the machine before it with the client run on
  each invocation in turn. When the path exists and no revision is pinned, the call is one
  run of \<open>git pull origin <branch>\<close> in the directory of the path: its state is the state
  after that run, and it raises \<open>GitError\<close> if the run fails and returns normally
  otherwise.
\<close>

theorem pull_exactly_when_present_and_unpinned:
  "filter is_pull (performed s (snd (assets_setup m path branch repo commit s))) =
     (if path_exists m (world s) path \<and> commit = None
      then [(path, [''pull'', ''origin'', branch])] else [])
   \<and> world (snd (assets_setup m path branch repo commit s))
       = replay m (performed s (snd (assets_setup m path branch repo commit s))) (world s)
   \<and> (path_exists m (world s) path \<and> commit = None \<longrightarrow>
        assets_setup m path branch repo commit s
          = (if return_code (fst (shell m (cmdline (GitRepo path) [''pull'', ''origin'', branch]) (world s))) \<noteq> 0
             then Inl (GitError (CommandError (cmdline (GitRepo path) [''pull'', ''origin'', branch])
                   (err (fst (shell m (cmdline (GitRepo path) [''pull'', ''origin'', branch]) (world s))))))
             else Inr (),
             \<lparr>world = snd (shell m (cmdline (GitRepo path) [''pull'', ''origin'', branch]) (world s)),
              trace = trace s @ [(path, [''pull'', ''origin'', branch])]\<rparr>))"
proof (intro conjI impI)
  show "filter is_pull (performed s (snd (assets_setup m path branch repo commit s))) =
     (if path_exists m (world s) path \<and> commit = None
      then [(path, [''pull'', ''origin'', branch])] else [])"
  proof (cases "path_exists m (world s) path")
    case True
    show ?thesis
    proof (cases commit)
      case None
      with True show ?thesis
        by (simp add: pull_present_unpinned is_pull_def subcommand_def)
    next
      case (Some c)
      with True show ?thesis
        by (simp add: no_pull_present_pinned)
    qed
  next
    case False
    then show ?thesis
      by (simp add: no_pull_missing)
  qed
next
  show "world (snd (assets_setup m path branch repo commit s))
       = replay m (performed s (snd (assets_setup m path branch repo commit s))) (world s)"
    by (rule assets_setup_runs_client)
next
  assume "path_exists m (world s) path \<and> commit = None"
  then show "assets_setup m path branch repo commit s
          = (if return_code (fst (shell m (cmdline (GitRepo path) [''pull'', ''origin'', branch]) (world s))) \<noteq> 0
             then Inl (GitError (CommandError (cmdline (GitRepo path) [''pull'', ''origin'', branch])
                   (err (fst (shell m (cmdline (GitRepo path) [''pull'', ''origin'', branch]) (world s))))))
             else Inr (),
             \<lparr>world = snd (shell m (cmdline (GitRepo path) [''pull'', ''origin'', branch]) (world s)),
              trace = trace s @ [(path, [''pull'', ''origin'', branch])]\<rparr>)"
    using present_unpinned_runs_pull [of m s path branch repo] by simp
qed

theorem pull_exactly_when_present_and_unpinned_witness:
  "assets_setup (recording_machine True ''abc123def456'') ''build/assets'' ''master''
       ''git@host:assets.git'' None \<lparr>world = [], trace = []\<rparr>
     = (Inr (), \<lparr>world = [''cd build/assets ; git pull origin master''],
                 trace = [(''build/assets'', [''pull'', ''origin'', ''master''])]\<rparr>)
   \<and> filter is_pull (performed \<lparr>world = [], trace = []\<rparr>
      (snd (assets_setup (recording_machine True ''abc123def456'') ''build/assets'' ''master''
         ''git@host:assets.git'' (Some ''abc123'') \<lparr>world = [], trace = []\<rparr>))) = []
   \<and> world (snd (assets_setup (recording_machine True ''abc123def456'') ''build/assets'' ''master''
         ''git@host:assets.git'' (Some ''abc123'') \<lparr>world = [], trace = []\<rparr>))
     = [''cd build/assets ; git rev-parse --verify HEAD'',
        ''cd build/assets ; git rev-parse --verify HEAD'']
   \<and> filter is_pull (performed \<lparr>world = [], trace = []\<rparr>
      (snd (assets_setup (recording_machine False ''abc123def456'') ''build/assets'' ''master''
         ''git@host:assets.git'' None \<lparr>world = [], trace = []\<rparr>))) = []
   \<and> world (snd (assets_setup (recording_machine False ''abc123def456'') ''build/assets'' ''master''
         ''git@host:assets.git'' None \<lparr>world = [], trace = []\<rparr>))
     = [''cd build ; git clone git@host:assets.git --branch master assets'',
        ''cd build ; git rev-parse --verify HEAD'']"
proof -
  let ?s = "\<lparr>world = [], trace = []\<rparr> :: string list gstate"
  have sp: "path_split ''build/assets'' = (''build'', ''assets'')"
    by (simp add: path_split_def rstrip_slash_def)
  note t = pull_exactly_when_present_and_unpinned
  have a: "assets_setup (recording_machine True ''abc123def456'') ''build/assets'' ''master''
       ''git@host:assets.git'' None ?s
     = (Inr (), \<lparr>world = [''cd build/assets ; git pull origin master''],
                 trace = [(''build/assets'', [''pull'', ''origin'', ''master''])]\<rparr>)"
    using t [of ?s "recording_machine True ''abc123def456''" "''build/assets''" "''master''"
          "''git@host:assets.git''" None]
    by (simp add: recording_machine_def ok_def cmdline_def)
  have b: "filter is_pull (performed ?s
      (snd (assets_setup (recording_machine True ''abc123def456'') ''build/assets'' ''master''
         ''git@host:assets.git'' (Some ''abc123'') ?s))) = []"
    using t [of ?s "recording_machine True ''abc123def456''" "''build/assets''" "''master''"
          "''git@host:assets.git''" "Some ''abc123''"]
    by (simp add: recording_machine_def)
  have c: "filter is_pull (performed ?s
      (snd (assets_setup (recording_machine False ''abc123def456'') ''build/assets'' ''master''
         ''git@host:assets.git'' None ?s))) = []"
    using t [of ?s "recording_machine False ''abc123def456''" "''build/assets''" "''master''"
          "''git@host:assets.git''" None]
    by (simp add: recording_machine_def)
  have d: "world (snd (assets_setup (recording_machine True ''abc123def456'') ''build/assets'' ''master''
         ''git@host:assets.git'' (Some ''abc123'') ?s))
     = [''cd build/assets ; git rev-parse --verify HEAD'',
        ''cd build/assets ; git rev-parse --verify HEAD'']"
    by (simp add: assets_setup_def Let_def recording_machine_def ok_def bind_def return_def
        sha_def cmd_eq cmdline_def startswith_def)
  have e: "world (snd (assets_setup (recording_machine False ''abc123def456'') ''build/assets'' ''master''
         ''git@host:assets.git'' None ?s))
     = [''cd build ; git clone git@host:assets.git --branch master assets'',
        ''cd build ; git rev-parse --verify HEAD'']"
    by (simp add: assets_setup_def Let_def sp recording_machine_def ok_def bind_def return_def
        raise_def clone_def sha_def cmd_eq cmdline_def)
  show ?thesis by (intro conjI a b d c e)
qed

subsection \<open>An existing path with a pinned revision\<close>

text \<open>
  Claim C2. The path exists and revision \<open>c\<close> is pinned; the client reports the current
  revision \<open>r\<close>, and reports it again if it is asked a second time (the code reads the
  revision once for the comparison and once more for the prefix test). If \<open>r\<close> equals
  \<open>c\<close> or starts with \<open>c\<close>, the call returns normally, has made no mutating
  invocation, and leaves the state as the reads left it. Otherwise it ends with the
  checkout of \<open>c\<close>, which is its only mutating invocation, and that checkout is one run
  of \<open>git checkout c\<close> in the directory of the path, from the machine the reads left: the
  machine after the call is the machine after that run, and the call raises \<open>GitError\<close>
  if the run fails and returns normally otherwise. In both cases the machine after the
  call is the machine before it with the client run on each invocation in turn.
\<close>

theorem pinned_present_decision:
  assumes present: "path_exists m (world s) path"
    and read1: "sha m (GitRepo path) ''HEAD'' s = (Inr r, s1)"
    and read2: "r \<noteq> c \<Longrightarrow> sha m (GitRepo path) ''HEAD'' s1 = (Inr r, s2)"
  shows "(if r = c \<or> startswith r c
          then fst (assets_setup m path branch repo (Some c) s) = Inr ()
             \<and> filter mutating (performed s (snd (assets_setup m path branch repo (Some c) s))) = []
             \<and> snd (assets_setup m path branch repo (Some c) s) = (if r = c then s1 else s2)
          else assets_setup m path branch repo (Some c) s
                 = bind (checkout m (GitRepo path) c) (\<lambda>_. return ()) s2
             \<and> filter mutating (performed s (snd (assets_setup m path branch repo (Some c) s)))
                 = [(path, [''checkout'', c])]
             \<and> assets_setup m path branch repo (Some c) s
                 = (if return_code (fst (shell m (cmdline (GitRepo path) [''checkout'', c]) (world s2))) \<noteq> 0
                    then Inl (GitError (CommandError (cmdline (GitRepo path) [''checkout'', c])
                          (err (fst (shell m (cmdline (GitRepo path) [''checkout'', c]) (world s2))))))
                    else Inr (),
                    \<lparr>world = snd (shell m (cmdline (GitRepo path) [''checkout'', c]) (world s2)),
                     trace = trace s2 @ [(path, [''checkout'', c])]\<rparr>))
         \<and> world (snd (assets_setup m path branch repo (Some c) s))
             = replay m (performed s (snd (assets_setup m path branch repo (Some c) s))) (world s)"
proof (rule conjI)
  have t1: "trace s1 = trace s @ [(path, [''rev-parse'', ''--verify'', ''HEAD''])]"
    using sha_trace [of m "GitRepo path" "''HEAD''" s] read1 by simp
  show "(if r = c \<or> startswith r c
          then fst (assets_setup m path branch repo (Some c) s) = Inr ()
             \<and> filter mutating (performed s (snd (assets_setup m path branch repo (Some c) s))) = []
             \<and> snd (assets_setup m path branch repo (Some c) s) = (if r = c then s1 else s2)
          else assets_setup m path branch repo (Some c) s
                 = bind (checkout m (GitRepo path) c) (\<lambda>_. return ()) s2
             \<and> filter mutating (performed s (snd (assets_setup m path branch repo (Some c) s)))
                 = [(path, [''checkout'', c])]
             \<and> assets_setup m path branch repo (Some c) s
                 = (if return_code (fst (shell m (cmdline (GitRepo path) [''checkout'', c]) (world s2))) \<noteq> 0
                    then Inl (GitError (CommandError (cmdline (GitRepo path) [''checkout'', c])
                          (err (fst (shell m (cmdline (GitRepo path) [''checkout'', c]) (world s2))))))
                    else Inr (),
                    \<lparr>world = snd (shell m (cmdline (GitRepo path) [''checkout'', c]) (world s2)),
                     trace = trace s2 @ [(path, [''checkout'', c])]\<rparr>))"
  proof (cases "r = c")
    case True
    then show ?thesis
      using present read1 t1
      by (simp add: assets_setup_def Let_def bind_def return_def performed_def mutating_def subcommand_def)
  next
    case False
    have t2: "trace s2 = trace s1 @ [(path, [''rev-parse'', ''--verify'', ''HEAD''])]"
      using sha_trace [of m "GitRepo path" "''HEAD''" s1] read2 [OF False] by simp
    have t3: "trace (snd (bind (checkout m (GitRepo path) c) (\<lambda>_. return ()) s2))
                = trace s2 @ [(path, [''checkout'', c])]"
      by (simp add: checkout_def bind_def cmd_eq return_def)
    have e: "assets_setup m path branch repo (Some c) s
               = (if startswith r c then (Inr (), s2)
                  else bind (checkout m (GitRepo path) c) (\<lambda>_. return ()) s2)"
      using False present read1 read2 [OF False]
      by (simp add: assets_setup_def Let_def bind_def return_def)
    have k: "bind (checkout m (GitRepo path) c) (\<lambda>_. return ()) s2
               = (if return_code (fst (shell m (cmdline (GitRepo path) [''checkout'', c]) (world s2))) \<noteq> 0
                    then Inl (GitError (CommandError (cmdline (GitRepo path) [''checkout'', c])
                          (err (fst (shell m (cmdline (GitRepo path) [''checkout'', c]) (world s2))))))
                    else Inr (),
                    \<lparr>world = snd (shell m (cmdline (GitRepo path) [''checkout'', c]) (world s2)),
                     trace = trace s2 @ [(path, [''checkout'', c])]\<rparr>)"
      by (simp add: bind_def return_def checkout_runs_the_client)
    show ?thesis
    proof (cases "startswith r c")
      case True
      then show ?thesis
        using False e t1 t2
        by (simp add: performed_def mutating_def subcommand_def)
    next
      case nsw: False
      have e2: "assets_setup m path branch repo (Some c) s
               = bind (checkout m (GitRepo path) c) (\<lambda>_. return ()) s2"
        using e nsw by simp
      have f: "filter mutating (performed s (snd (assets_setup m path branch repo (Some c) s)))
                 = [(path, [''checkout'', c])]"
        using t1 t2 t3 by (simp add: e2 performed_def mutating_def subcommand_def)
      show ?thesis
        using False nsw e2 f k by simp
    qed
  qed
next
  show "world (snd (assets_setup m path branch repo (Some c) s))
             = replay m (performed s (snd (assets_setup m path branch repo (Some c) s))) (world s)"
    by (rule assets_setup_runs_client)
qed

theorem pinned_present_decision_witness:
  "path_exists (recording_machine True ''cafebabe'') (world \<lparr>world = [], trace = []\<rparr>) ''build/assets''
   \<and> sha (recording_machine True ''cafebabe'') (GitRepo ''build/assets'') ''HEAD''
         \<lparr>world = [], trace = []\<rparr>
       = (Inr ''cafebabe'',
          \<lparr>world = [''cd build/assets ; git rev-parse --verify HEAD''],
           trace = [(''build/assets'', [''rev-parse'', ''--verify'', ''HEAD''])]\<rparr>)
   \<and> \<not> startswith ''cafebabe'' ''deadbeef''
   \<and> assets_setup (recording_machine True ''cafebabe'') ''build/assets'' ''master''
         ''git@host:assets.git'' (Some ''deadbeef'') \<lparr>world = [], trace = []\<rparr>
       = (Inr (),
          \<lparr>world = [''cd build/assets ; git rev-parse --verify HEAD'',
                    ''cd build/assets ; git rev-parse --verify HEAD'',
                    ''cd build/assets ; git checkout deadbeef''],
           trace = [(''build/assets'', [''rev-parse'', ''--verify'', ''HEAD'']),
                    (''build/assets'', [''rev-parse'', ''--verify'', ''HEAD'']),
                    (''build/assets'', [''checkout'', ''deadbeef''])]\<rparr>)
   \<and> filter mutating (performed \<lparr>world = [], trace = []\<rparr>
        (snd (assets_setup (recording_machine True ''cafebabe'') ''build/assets'' ''master''
         ''git@host:assets.git'' (Some ''deadbeef'') \<lparr>world = [], trace = []\<rparr>)))
       = [(''build/assets'', [''checkout'', ''deadbeef''])]
   \<and> startswith ''cafebabe'' ''cafe''
   \<and> assets_setup (recording_machine True ''cafebabe'') ''build/assets'' ''master''
         ''git@host:assets.git'' (Some ''cafe'') \<lparr>world = [], trace = []\<rparr>
       = (Inr (),
          \<lparr>world = [''cd build/assets ; git rev-parse --verify HEAD'',
                    ''cd build/assets ; git rev-parse --verify HEAD''],
           trace = [(''build/assets'', [''rev-parse'', ''--verify'', ''HEAD'']),
                    (''build/assets'', [''rev-parse'', ''--verify'', ''HEAD''])]\<rparr>)
   \<and> assets_setup (recording_machine True ''cafebabe'') ''build/assets'' ''master''
         ''git@host:assets.git'' (Some ''cafebabe'') \<lparr>world = [], trace = []\<rparr>
       = (Inr (),
          \<lparr>world = [''cd build/assets ; git rev-parse --verify HEAD''],
           trace = [(''build/assets'', [''rev-parse'', ''--verify'', ''HEAD''])]\<rparr>)"
proof -
  let ?m = "recording_machine True ''cafebabe''"
  let ?rp = "''cd build/assets ; git rev-parse --verify HEAD''"
  let ?s = "\<lparr>world = [], trace = []\<rparr> :: string list gstate"
  let ?s1 = "\<lparr>world = [?rp],
       trace = [(''build/assets'', [''rev-parse'', ''--verify'', ''HEAD''])]\<rparr> :: string list gstate"
  let ?s2 = "\<lparr>world = [?rp, ?rp],
       trace = [(''build/assets'', [''rev-parse'', ''--verify'', ''HEAD'']),
       (''build/assets'', [''rev-parse'', ''--verify'', ''HEAD''])]\<rparr> :: string list gstate"
  have h0: "path_exists ?m (world ?s) ''build/assets''"
    by (simp add: recording_machine_def)
  have h1: "sha ?m (GitRepo ''build/assets'') ''HEAD'' ?s = (Inr ''cafebabe'', ?s1)"
    by (simp add: sha_def bind_def return_def cmd_eq recording_machine_def ok_def cmdline_def)
  have h2: "sha ?m (GitRepo ''build/assets'') ''HEAD'' ?s1 = (Inr ''cafebabe'', ?s2)"
    by (simp add: sha_def bind_def return_def cmd_eq recording_machine_def ok_def cmdline_def)
  have n: "\<not> startswith ''cafebabe'' ''deadbeef''"
    by (simp add: startswith_def)
  have p: "startswith ''cafebabe'' ''cafe''"
    by (simp add: startswith_def)
  have nc: "\<not> (''cafebabe'' = ''deadbeef'' \<or> startswith ''cafebabe'' ''deadbeef'')"
    by (simp add: startswith_def)
  note t = pinned_present_decision [OF h0 h1 h2, of "''deadbeef''" "''master''" "''git@host:assets.git''",
      unfolded if_not_P [OF nc], THEN conjunct1]
  have a1: "assets_setup ?m ''build/assets'' ''master'' ''git@host:assets.git'' (Some ''deadbeef'') ?s
       = (Inr (),
          \<lparr>world = [?rp, ?rp, ''cd build/assets ; git checkout deadbeef''],
           trace = [(''build/assets'', [''rev-parse'', ''--verify'', ''HEAD'']),
                    (''build/assets'', [''rev-parse'', ''--verify'', ''HEAD'']),
                    (''build/assets'', [''checkout'', ''deadbeef''])]\<rparr>)"
    using t [THEN conjunct2, THEN conjunct2]
    by (simp add: recording_machine_def ok_def cmdline_def)
  have a2: "filter mutating (performed ?s
        (snd (assets_setup ?m ''build/assets'' ''master'' ''git@host:assets.git'' (Some ''deadbeef'') ?s)))
       = [(''build/assets'', [''checkout'', ''deadbeef''])]"
    by (rule t [THEN conjunct2, THEN conjunct1])
  have b: "assets_setup ?m ''build/assets'' ''master'' ''git@host:assets.git'' (Some ''cafe'') ?s
       = (Inr (), ?s2)"
    using pinned_present_decision [OF h0 h1 h2, of "''cafe''" "''master''" "''git@host:assets.git''"] p
    by (simp add: prod_eq_iff)
  have c: "assets_setup ?m ''build/assets'' ''master'' ''git@host:assets.git'' (Some ''cafebabe'') ?s
       = (Inr (), ?s1)"
    using pinned_present_decision [OF h0 h1, of "''cafebabe''" ?s2 "''master''" "''git@host:assets.git''"]
    by (simp add: prod_eq_iff)
  show ?thesis by (intro conjI h0 h1 n p a1 a2 b c)
qed

text \<open>The spec's example of a mismatch: pinned to \<open>deadbeef\<close> while at \<open>cafebabe\<close>.\<close>

lemma pinned_mismatch_example:
  "filter mutating (performed \<lparr>world = (), trace = []\<rparr>
        (snd (assets_setup (fixed_machine True ''cafebabe'') ''build/assets'' ''master''
         ''git@host:assets.git'' (Some ''deadbeef'') \<lparr>world = (), trace = []\<rparr>)))
     = [(''build/assets'', [''checkout'', ''deadbeef''])]"
  by (simp add: assets_setup_def Let_def fixed_machine_def ok_def bind_def return_def
        sha_def checkout_def cmd_eq startswith_def performed_def mutating_def subcommand_def)

subsection \<open>A missing path\<close>

text \<open>
  With no pinned revision the branch for a missing path cannot end normally: after the
  clone the condition reads the revision and then calls \<open>startswith(None)\<close>.
\<close>

lemma missing_unpinned_always_raises:
  "\<not> path_exists m (world s) path \<Longrightarrow> \<exists>e. fst (assets_setup m path branch repo None s) = Inl e"
  by (simp add: assets_setup_def Let_def bind_def return_def raise_def clone_def sha_def cmd_eq
      split: prod.splits)

text \<open>
  Claim C1 says that for a missing path one clone is made, that a checkout follows only if
  a revision is pinned and the revision after the clone neither equals it nor starts with
  it, and that with no pinned revision the call ends after the clone without error.
  The code at three inputs, on a machine where the path is missing and the client reports
  revision \<open>abc123def456\<close>: with no pin the call raises \<open>TypeError\<close> after the clone and
  one read of the revision; with the pin \<open>abc123def456\<close>, already met, it checks the pin
  out; with the pin \<open>deadbeef\<close>, not met, it makes no checkout.
\<close>

theorem clone_branch_misjudges_pin:
  "assets_setup (fixed_machine False ''abc123def456'') ''build/assets'' ''master''
       ''git@host:assets.git'' None \<lparr>world = (), trace = []\<rparr>
     = (Inl TypeError,
        \<lparr>world = (),
         trace = [(''build'', [''clone'', ''git@host:assets.git'', ''--branch'', ''master'', ''assets'']),
                  (''build'', [''rev-parse'', ''--verify'', ''HEAD''])]\<rparr>)
   \<and> assets_setup (fixed_machine False ''abc123def456'') ''build/assets'' ''master''
       ''git@host:assets.git'' (Some ''abc123def456'') \<lparr>world = (), trace = []\<rparr>
     = (Inr (),
        \<lparr>world = (),
         trace = [(''build'', [''clone'', ''git@host:assets.git'', ''--branch'', ''master'', ''assets'']),
                  (''build'', [''rev-parse'', ''--verify'', ''HEAD'']),
                  (''build'', [''checkout'', ''abc123def456''])]\<rparr>)
   \<and> assets_setup (fixed_machine False ''abc123def456'') ''build/assets'' ''master''
       ''git@host:assets.git'' (Some ''deadbeef'') \<lparr>world = (), trace = []\<rparr>
     = (Inr (),
        \<lparr>world = (),
         trace = [(''build'', [''clone'', ''git@host:assets.git'', ''--branch'', ''master'', ''assets'']),
                  (''build'', [''rev-parse'', ''--verify'', ''HEAD'']),
                  (''build'', [''rev-parse'', ''--verify'', ''HEAD''])]\<rparr>)"
proof -
  have sp: "path_split ''build/assets'' = (''build'', ''assets'')"
    by (simp add: path_split_def rstrip_slash_def)
  show ?thesis
    by (simp add: assets_setup_def Let_def sp fixed_machine_def ok_def bind_def return_def raise_def
        clone_def sha_def checkout_def cmd_eq startswith_def)
qed

subsection \<open>The scoped branch helper\<close>

text \<open>
  Claim C5 says the helper restores the original branch on every exit path. On
  \<open>branch_machine\<close>, at branch \<open>master\<close>, a body that raises inside
  \<open>with g.branch('feature')\<close> leaves the repository at \<open>feature\<close>: the exception
  propagates and no checkout of \<open>master\<close> is made.
\<close>

theorem branch_body_exception_skips_restore:
  "GitRepo_branch branch_machine (GitRepo ''repo'') ''feature'' (raise (BodyError ''boom''))
       \<lparr>world = ''master'', trace = []\<rparr>
     = (Inl (BodyError ''boom''),
        \<lparr>world = ''feature'',
         trace = [(''repo'', [''symbolic-ref'', ''HEAD'']), (''repo'', [''checkout'', ''feature''])]\<rparr>)"
  by (simp add: GitRepo_branch_def current_branch_def checkout_def bind_def return_def raise_def
      cmd_eq cmdline_def branch_machine_def ok_def)

text \<open>
  Claim C5, amended. When the scoped branch differs from the branch \<open>b\<close> that
  \<open>current_branch\<close> reported on entry and the checkout on entry succeeded: if the body
  ends normally, the helper ends with the checkout of \<open>b\<close>, its last invocation; if the
  body raises, the helper raises the same exception from the state the body left, with no
  further invocation.
\<close>

theorem branch_restores_after_normal_body:
  assumes "current_branch m g s = (Inr b, s1)"
    and "name \<noteq> b"
    and "checkout m g name s1 = (Inr v, s2)"
  shows "(body s2 = (Inr (), s3) \<longrightarrow>
            GitRepo_branch m g name body s = bind (checkout m g b) (\<lambda>_. return ()) s3
          \<and> trace (snd (GitRepo_branch m g name body s)) = trace s3 @ [(repo_path g, [''checkout'', b])])
       \<and> (body s2 = (Inl e, s3) \<longrightarrow> GitRepo_branch m g name body s = (Inl e, s3))"
  using assms
  by (simp add: GitRepo_branch_def bind_def return_def checkout_def cmd_eq)

theorem branch_restores_after_normal_body_witness:
  "current_branch branch_machine (GitRepo ''repo'') \<lparr>world = ''master'', trace = []\<rparr>
     = (Inr ''master'', \<lparr>world = ''master'', trace = [(''repo'', [''symbolic-ref'', ''HEAD''])]\<rparr>)
   \<and> ''feature'' \<noteq> ''master''
   \<and> checkout branch_machine (GitRepo ''repo'') ''feature''
         \<lparr>world = ''master'', trace = [(''repo'', [''symbolic-ref'', ''HEAD''])]\<rparr>
     = (Inr True, \<lparr>world = ''feature'',
          trace = [(''repo'', [''symbolic-ref'', ''HEAD'']), (''repo'', [''checkout'', ''feature''])]\<rparr>)
   \<and> GitRepo_branch branch_machine (GitRepo ''repo'') ''feature'' (return ())
         \<lparr>world = ''master'', trace = []\<rparr>
     = (Inr (), \<lparr>world = ''master'',
          trace = [(''repo'', [''symbolic-ref'', ''HEAD'']), (''repo'', [''checkout'', ''feature'']),
                   (''repo'', [''checkout'', ''master''])]\<rparr>)"
proof -
  let ?s = "\<lparr>world = ''master'', trace = []\<rparr> :: string gstate"
  let ?s1 = "\<lparr>world = ''master'', trace = [(''repo'', [''symbolic-ref'', ''HEAD''])]\<rparr> :: string gstate"
  let ?s2 = "\<lparr>world = ''feature'',
          trace = [(''repo'', [''symbolic-ref'', ''HEAD'']), (''repo'', [''checkout'', ''feature''])]\<rparr> :: string gstate"
  have h1: "current_branch branch_machine (GitRepo ''repo'') ?s = (Inr ''master'', ?s1)"
    by (simp add: current_branch_def bind_def return_def raise_def cmd_eq cmdline_def
        branch_machine_def ok_def)
  have h2: "''feature'' \<noteq> ''master''" by simp
  have h3: "checkout branch_machine (GitRepo ''repo'') ''feature'' ?s1 = (Inr True, ?s2)"
    by (simp add: checkout_def bind_def return_def cmd_eq cmdline_def branch_machine_def ok_def)
  have h4: "bind (checkout branch_machine (GitRepo ''repo'') ''master'') (\<lambda>_. return ()) ?s2
      = (Inr (), \<lparr>world = ''master'',
          trace = [(''repo'', [''symbolic-ref'', ''HEAD'']), (''repo'', [''checkout'', ''feature'']),
                   (''repo'', [''checkout'', ''master''])]\<rparr>)"
    by (simp add: checkout_def bind_def return_def cmd_eq cmdline_def branch_machine_def ok_def)
  from branch_restores_after_normal_body [OF h1 h2 h3, of "return ()" ?s2] h1 h3 h4
  show ?thesis by (simp add: return_def)
qed


subsection \<open>Failures of the client\<close>

lemma client_failure_cmd:
  "return_code (fst (shell m (cmdline g args) (world s))) \<noteq> 0 \<Longrightarrow>
   client_failure m g args s (cmd m g args s)"
  by (simp add: client_failure_def cmd_eq split: prod.splits)

lemma client_failure_bind:
  "client_failure m g args s (f s) \<Longrightarrow> client_failure m g args s (bind f k s)"
  by (auto simp: client_failure_def bind_def split: prod.splits)

lemma cmd_raises_only_GitError:
  "fst (cmd m g args s) = Inl e \<Longrightarrow>
   return_code (fst (shell m (cmdline g args) (world s))) \<noteq> 0
   \<and> e = GitError (CommandError (cmdline g args) (err (fst (shell m (cmdline g args) (world s)))))"
  by (simp add: cmd_eq split: if_splits)

text \<open>
  Claim C8, amended. Every operation of the handle other than \<open>am\<close> reaches the client
  through \<open>cmd\<close>. When the client exits with a non-zero status on the command line of
  the operation, the operation raises \<open>GitError\<close> around the \<open>CommandError\<close> holding that
  command line and the captured error output, and the client has been run exactly once
  (no retry): the state is the one after that single run.
\<close>

theorem client_failure_raises_GitError:
  assumes "return_code (fst (shell m (cmdline g args) (world s))) \<noteq> 0"
  shows "client_failure m g args s (cmd m g args s)
    \<and> (args = [''rev-parse'', ''--verify'', ref] \<longrightarrow> client_failure m g args s (sha m g ref s))
    \<and> (args = [''symbolic-ref'', ''HEAD''] \<longrightarrow> client_failure m g args s (current_branch m g s))
    \<and> (args = [''branch --list '' @ name] \<longrightarrow> client_failure m g args s (branch_exists m g name s))
    \<and> (args = [''clone'', remote, ''--branch'', b, name] \<longrightarrow>
          client_failure m g args s (clone m g remote (Some name) (Some b) s))
    \<and> (args = [''checkout'', ref] \<longrightarrow> client_failure m g args s (checkout m g ref s))
    \<and> (args = [''pull'', remote, b] \<longrightarrow> client_failure m g args s (pull m g remote b s))
    \<and> (args = [''fetch'', remote] \<longrightarrow> client_failure m g args s (fetch m g remote s))
    \<and> (args = [''branch'', name] \<longrightarrow> client_failure m g args s (create_branch m g name None s))
    \<and> (args = [''branch'', ''-d'', name] \<longrightarrow> client_failure m g args s (remove_branch m g name False s))
    \<and> (args = [''rebase'', ref] \<longrightarrow> client_failure m g args s (rebase m g ref s))
    \<and> (args = [''merge'', b] \<longrightarrow> client_failure m g args s (merge m g b s))
    \<and> (args = [''cherry-pick'', c] \<longrightarrow>
          client_failure m g args s (cherry_pick m g (Str c # Str c' # cs) s))"
proof -
  note f = client_failure_cmd [OF assms]
  have 1: "args = [''rev-parse'', ''--verify'', ref] \<longrightarrow> client_failure m g args s (sha m g ref s)"
    using f by (auto simp: sha_def intro: client_failure_bind)
  have 2: "args = [''symbolic-ref'', ''HEAD''] \<longrightarrow> client_failure m g args s (current_branch m g s)"
    using f by (auto simp: current_branch_def intro: client_failure_bind)
  have 3: "args = [''branch --list '' @ name] \<longrightarrow> client_failure m g args s (branch_exists m g name s)"
    using f by (auto simp: branch_exists_def intro: client_failure_bind)
  have 4: "args = [''clone'', remote, ''--branch'', b, name] \<longrightarrow>
          client_failure m g args s (clone m g remote (Some name) (Some b) s)"
    using f by (auto simp: clone_def)
  have 5: "args = [''checkout'', ref] \<longrightarrow> client_failure m g args s (checkout m g ref s)"
    using f by (auto simp: checkout_def intro: client_failure_bind)
  have 6: "args = [''pull'', remote, b] \<longrightarrow> client_failure m g args s (pull m g remote b s)"
    using f by (auto simp: pull_def)
  have 7: "args = [''fetch'', remote] \<longrightarrow> client_failure m g args s (fetch m g remote s)"
    using f by (auto simp: fetch_def)
  have 8: "args = [''branch'', name] \<longrightarrow> client_failure m g args s (create_branch m g name None s)"
    using f by (auto simp: create_branch_def)
  have 9: "args = [''branch'', ''-d'', name] \<longrightarrow> client_failure m g args s (remove_branch m g name False s)"
    using f by (auto simp: remove_branch_def)
  have 10: "args = [''rebase'', ref] \<longrightarrow> client_failure m g args s (rebase m g ref s)"
    using f by (auto simp: rebase_def)
  have 11: "args = [''merge'', b] \<longrightarrow> client_failure m g args s (merge m g b s)"
    using f by (auto simp: merge_def)
  have 12: "args = [''cherry-pick'', c] \<longrightarrow>
          client_failure m g args s (cherry_pick m g (Str c # Str c' # cs) s)"
    using f by (auto simp: cherry_pick_def intro: client_failure_bind)
  from f 1 2 3 4 5 6 7 8 9 10 11 12 show ?thesis by blast
qed

theorem client_failure_raises_GitError_witness:
  "return_code (fst (shell failing_machine (cmdline (GitRepo ''repo'') [''checkout'', ''master''])
       (world \<lparr>world = (), trace = []\<rparr>))) \<noteq> 0
   \<and> checkout failing_machine (GitRepo ''repo'') ''master'' \<lparr>world = (), trace = []\<rparr>
     = (Inl (GitError (CommandError ''cd repo ; git checkout master'' ''fatal: not a git repository'')),
        \<lparr>world = (), trace = [(''repo'', [''checkout'', ''master''])]\<rparr>)"
proof -
  have h: "return_code (fst (shell failing_machine (cmdline (GitRepo ''repo'') [''checkout'', ''master''])
       (world \<lparr>world = (), trace = []\<rparr>))) \<noteq> 0"
    by (simp add: failing_machine_def)
  from client_failure_raises_GitError [OF h, of "''master''"] h
  show ?thesis
    by (simp add: client_failure_def failing_machine_def cmdline_def)
qed

text \<open>
  Claim C8 says every repository operation raises \<open>GitError\<close> when the client fails.
  \<open>am\<close> hands its pipeline to \<open>command\<close> directly: on \<open>failing_machine\<close> it raises
  the bare \<open>CommandError\<close>.
\<close>

theorem am_failure_is_not_GitError:
  "am failing_machine (GitRepo ''repo'') [''http://example.org/pull/7''] None False
       \<lparr>world = (), trace = []\<rparr>
     = (Inl (CommandError ''curl http://example.org/pull/7.patch | git am --3way''
               ''fatal: not a git repository''),
        \<lparr>world = (), trace = []\<rparr>)"
  by (simp add: bind_def run_command_def command_def cmd_base_def failing_machine_def
      startswith_def endswith_def suffix_to_prefix)

section \<open>Properties of the file operations\<close>

subsection \<open>Reading the file system\<close>

lemma resolve_nonlink:
  "(\<And>t. lookup fs p \<noteq> Some (Link t)) \<Longrightarrow> resolve n fs p = Some p"
  by (cases n) (auto split: option.splits node.splits)

lemma stat_nonlink:
  "(\<And>t. lookup fs p \<noteq> Some (Link t)) \<Longrightarrow> stat fs p = lookup fs p"
  by (simp add: stat_def resolve_nonlink)

lemma lookup_put: "lookup (put p v fs) q = (if q = [] then None else if q = p then v else lookup fs q)"
  by (simp add: lookup_def put_def)

lemma now_put: "now (put p v fs) = now fs"
  by (simp add: put_def)

lemma extends_refl: "extends fs fs"
  by (simp add: extends_def)

lemma extends_trans: "extends a b \<Longrightarrow> extends b c \<Longrightarrow> extends a c"
  by (simp add: extends_def)

lemma extends_resolve:
  "extends fs fs' \<Longrightarrow> resolve n fs p = Some k \<Longrightarrow> lookup fs k = Some v \<Longrightarrow> resolve n fs' p = Some k"
proof (induction n arbitrary: p)
  case 0
  then show ?case
    by (cases "lookup fs p") (auto simp: extends_def split: node.splits)
next
  case (Suc n)
  show ?case
  proof (cases "lookup fs p")
    case None
    with Suc.prems show ?thesis by simp
  next
    case (Some a)
    with Suc.prems(1) have l': "lookup fs' p = Some a" by (simp add: extends_def)
    show ?thesis
    proof (cases a)
      case (Link t)
      with Some l' Suc.prems Suc.IH [of "link_target p t"] show ?thesis by simp
    qed (use Some l' Suc.prems in auto)
  qed
qed

lemma extends_stat:
  assumes "extends fs fs'" and "stat fs p = Some v"
  shows "stat fs' p = Some v"
proof -
  from assms(2) obtain k where k: "resolve 40 fs p = Some k" "lookup fs k = Some v"
    by (auto simp: stat_def split: option.splits)
  from extends_resolve [OF assms(1) k] have "resolve 40 fs' p = Some k" .
  moreover from assms(1) k(2) have "lookup fs' k = Some v" by (simp add: extends_def)
  ultimately show ?thesis by (simp add: stat_def)
qed

lemma extends_isdir: "extends fs fs' \<Longrightarrow> isdir fs p \<Longrightarrow> isdir fs' p"
  by (auto simp: isdir_def dest: extends_stat split: option.splits node.splits)

lemma lookup_Nil: "lookup fs [] = None"
  by (simp add: lookup_def)

lemma os_mkdir_extends: "extends fs (snd (os_mkdir p fs))"
  by (auto simp: os_mkdir_def extends_def lookup_put now_put lookup_Nil)

lemma os_mkdir_raises: "fst (os_mkdir p fs) = Inl e \<Longrightarrow> \<exists>n x. e = OSError n x"
  by (auto simp: os_mkdir_def split: if_splits)

subsection \<open>Creating directories\<close>

lemma os_makedirs_base:
  assumes "makedirs_parts name = (head, tail)"
    and "\<not> (head \<noteq> [] \<and> tail \<noteq> [] \<and> \<not> exists fs head)"
  shows "os_makedirs name fs = os_mkdir name fs"
  using assms by (subst os_makedirs.simps) auto

lemma os_makedirs_rec_ok:
  assumes "makedirs_parts name = (head, tail)"
    and "head \<noteq> [] \<and> tail \<noteq> [] \<and> \<not> exists fs head"
    and "os_makedirs head fs = (Inr u, fs1)"
  shows "os_makedirs name fs = (if tail = ''.'' then (Inr (), fs1) else os_mkdir name fs1)"
  using assms by (subst os_makedirs.simps) simp

lemma os_makedirs_rec_err:
  assumes "makedirs_parts name = (head, tail)"
    and "head \<noteq> [] \<and> tail \<noteq> [] \<and> \<not> exists fs head"
    and "os_makedirs head fs = (Inl (OSError e x), fs1)"
  shows "os_makedirs name fs =
           (if e \<noteq> EEXIST then (Inl (OSError e x), fs1)
            else if tail = ''.'' then (Inr (), fs1) else os_mkdir name fs1)"
  using assms by (subst os_makedirs.simps) simp

lemma os_makedirs_raises: "fst (os_makedirs p fs) = Inl e \<Longrightarrow> \<exists>n x. e = OSError n x"
proof (induction p fs arbitrary: e rule: os_makedirs.induct)
  case (1 name fs)
  obtain head tail where parts: "makedirs_parts name = (head, tail)"
    by (cases "makedirs_parts name")
  show ?case
  proof (cases "head \<noteq> [] \<and> tail \<noteq> [] \<and> \<not> exists fs head")
    case False
    from os_makedirs_base [OF parts False] "1.prems" show ?thesis
      by (auto dest: os_mkdir_raises)
  next
    case True
    obtain r fs1 where rec: "os_makedirs head fs = (r, fs1)"
      by (cases "os_makedirs head fs")
    show ?thesis
    proof (cases r)
      case (Inr u)
      from os_makedirs_rec_ok [OF parts True rec [unfolded Inr]] "1.prems" show ?thesis
        by (auto dest: os_mkdir_raises split: if_splits)
    next
      case (Inl e')
      from "1.IH" [OF parts [symmetric], of e'] True rec Inl
      obtain n x where e': "e' = OSError n x" by auto
      from os_makedirs_rec_err [OF parts True rec [unfolded Inl e']] "1.prems" show ?thesis
        by (auto dest: os_mkdir_raises split: if_splits)
    qed
  qed
qed

lemma os_makedirs_extends: "extends fs (snd (os_makedirs p fs))"
proof (induction p fs rule: os_makedirs.induct)
  case (1 name fs)
  obtain head tail where parts: "makedirs_parts name = (head, tail)"
    by (cases "makedirs_parts name")
  show ?case
  proof (cases "head \<noteq> [] \<and> tail \<noteq> [] \<and> \<not> exists fs head")
    case False
    from os_makedirs_base [OF parts False] show ?thesis
      by (simp add: os_mkdir_extends)
  next
    case True
    obtain r fs1 where rec: "os_makedirs head fs = (r, fs1)"
      by (cases "os_makedirs head fs")
    from "1.IH" [OF parts [symmetric]] True rec have e1: "extends fs fs1" by simp
    have e2: "extends fs (snd (os_mkdir name fs1))"
      using e1 os_mkdir_extends [of fs1 name] by (rule extends_trans)
    show ?thesis
    proof (cases r)
      case (Inr u)
      from os_makedirs_rec_ok [OF parts True rec [unfolded Inr]] e1 e2 show ?thesis
        by simp
    next
      case (Inl e')
      from os_makedirs_raises [of head fs e'] rec Inl
      obtain n x where e': "e' = OSError n x" by auto
      from os_makedirs_rec_err [OF parts True rec [unfolded Inl e']] e1 e2 show ?thesis
        by simp
    qed
  qed
qed


lemma safe_create_directory_eq:
  "safe_create_directory path fs =
     (case os_makedirs path fs of
        (Inr u, fs') \<Rightarrow> (Inr (Some True), fs')
      | (Inl e, fs') \<Rightarrow> if isdir fs' path then (Inr None, fs') else (Inl AttributeError, fs'))"
proof (cases "os_makedirs path fs")
  case (Pair r fs')
  show ?thesis
  proof (cases r)
    case (Inl e)
    with Pair os_makedirs_raises [of path fs e] obtain n x where "e = OSError n x" by auto
    with Pair Inl show ?thesis
      by (simp add: safe_create_directory_def safe_create_directory_with_def)
  next
    case (Inr u)
    with Pair show ?thesis
      by (simp add: safe_create_directory_def safe_create_directory_with_def)
  qed
qed

text \<open>
  Claim C9. When the path is a directory, \<open>safe_create_directory\<close> returns without
  raising, and the path is still a directory. The same holds around any behaviour
  \<open>mk\<close> of the creation call that raises nothing but \<open>OSError\<close>: whenever the path is a
  directory once the call is over, also when the call failed because the directory was
  made by someone else in the meantime, the function returns without raising.
\<close>

theorem existing_directory_is_not_an_error:
  "(isdir fs path \<longrightarrow>
      (\<exists>r fs'. safe_create_directory path fs = (Inr r, fs') \<and> isdir fs' path))
   \<and> ((\<forall>e. fst (mk path fs) = Inl e \<longrightarrow> (\<exists>n x. e = OSError n x))
        \<and> isdir (snd (mk path fs)) path \<longrightarrow>
      (\<exists>r. safe_create_directory_with mk path fs = (Inr r, snd (mk path fs))))"
proof (intro conjI impI)
  assume d: "isdir fs path"
  obtain r fs' where m: "os_makedirs path fs = (r, fs')" by (cases "os_makedirs path fs")
  from os_makedirs_extends [of fs path] m have "extends fs fs'" by simp
  from extends_isdir [OF this d] have d': "isdir fs' path" .
  with m show "\<exists>r fs'. safe_create_directory path fs = (Inr r, fs') \<and> isdir fs' path"
    by (cases r) (simp_all add: safe_create_directory_eq)
next
  assume a: "(\<forall>e. fst (mk path fs) = Inl e \<longrightarrow> (\<exists>n x. e = OSError n x))
        \<and> isdir (snd (mk path fs)) path"
  obtain r fs' where m: "mk path fs = (r, fs')" by (cases "mk path fs")
  show "\<exists>r. safe_create_directory_with mk path fs = (Inr r, snd (mk path fs))"
  proof (cases r)
    case (Inl e)
    with a m obtain n x where "e = OSError n x" by auto
    with a m Inl show ?thesis by (simp add: safe_create_directory_with_def)
  next
    case (Inr u)
    with m show ?thesis by (simp add: safe_create_directory_with_def)
  qed
qed

lemma demo_build: "lookup demo_fs ''build'' = Some Dir"
  by (simp add: lookup_def demo_fs_def)

theorem existing_directory_is_not_an_error_witness:
  "isdir demo_fs ''build''
   \<and> (\<exists>r fs'. safe_create_directory ''build'' demo_fs = (Inr r, fs') \<and> isdir fs' ''build'')
   \<and> fst ((\<lambda>p fs. (Inl (OSError EEXIST p), put p (Some Dir) fs)) ''new'' demo_fs)
         = Inl (OSError EEXIST ''new'')
   \<and> isdir (snd ((\<lambda>p fs. (Inl (OSError EEXIST p), put p (Some Dir) fs)) ''new'' demo_fs)) ''new''
   \<and> (\<exists>r. safe_create_directory_with (\<lambda>p fs. (Inl (OSError EEXIST p), put p (Some Dir) fs))
             ''new'' demo_fs
           = (Inr r, put ''new'' (Some Dir) demo_fs))"
proof -
  have h1: "isdir demo_fs ''build''"
    by (simp add: isdir_def stat_nonlink demo_build)
  have h2: "isdir (put ''new'' (Some Dir) demo_fs) ''new''"
    by (simp add: isdir_def stat_nonlink lookup_put)
  from existing_directory_is_not_an_error [of demo_fs "''build''"
      "\<lambda>p fs. (Inl (OSError EEXIST p), put p (Some Dir) fs)"]
    existing_directory_is_not_an_error [of demo_fs "''new''"
      "\<lambda>p fs. (Inl (OSError EEXIST p), put p (Some Dir) fs)"] h1 h2
  show ?thesis by simp
qed

text \<open>
  Claim C10. When \<open>os.makedirs\<close> raises \<open>OSError\<close> and the path is not a directory,
  \<open>safe_create_directory\<close> raises \<open>AttributeError\<close>, not the \<open>OSError\<close>; this is so,
  for one, at a path that is a regular file.
\<close>

theorem makedirs_failure_raises_AttributeError:
  assumes "fst (os_makedirs path fs) = Inl (OSError n x)"
    and "\<not> isdir (snd (os_makedirs path fs)) path"
  shows "safe_create_directory path fs = (Inl AttributeError, snd (os_makedirs path fs))
       \<and> fst (safe_create_directory path fs) \<noteq> Inl (OSError n x)"
  using assms
  by (cases "os_makedirs path fs") (simp add: safe_create_directory_eq)

lemma demo_src: "lookup demo_fs ''src.txt'' = Some (File ''new text'' 10)"
  by (simp add: lookup_def demo_fs_def)

lemma makedirs_src: "os_makedirs ''src.txt'' demo_fs = (Inl (OSError EEXIST ''src.txt''), demo_fs)"
proof -
  have parts: "makedirs_parts ''src.txt'' = ([], ''src.txt'')"
    by (simp add: makedirs_parts_def path_split_def)
  from os_makedirs_base [OF parts, of demo_fs] show ?thesis
    by (simp add: os_mkdir_def demo_src)
qed

theorem makedirs_failure_raises_AttributeError_witness:
  "fst (os_makedirs ''src.txt'' demo_fs) = Inl (OSError EEXIST ''src.txt'')
   \<and> \<not> isdir (snd (os_makedirs ''src.txt'' demo_fs)) ''src.txt''
   \<and> safe_create_directory ''src.txt'' demo_fs = (Inl AttributeError, demo_fs)"
proof -
  have h1: "fst (os_makedirs ''src.txt'' demo_fs) = Inl (OSError EEXIST ''src.txt'')"
    by (simp add: makedirs_src)
  have h2: "\<not> isdir (snd (os_makedirs ''src.txt'' demo_fs)) ''src.txt''"
    by (simp add: makedirs_src isdir_def stat_nonlink demo_src)
  from makedirs_failure_raises_AttributeError [OF h1 h2] h1 h2 show ?thesis
    by (simp add: makedirs_src)
qed

subsection \<open>Paths\<close>

lemma path_split_alt:
  "path_split p =
     (let h0 = rev (dropWhile (\<lambda>c. c \<noteq> CHR ''/'') (rev p))
      in (if h0 \<noteq> [] \<and> \<not> list_all (\<lambda>c. c = CHR ''/'') h0 then rstrip_slash h0 else h0,
          rev (takeWhile (\<lambda>c. c \<noteq> CHR ''/'') (rev p))))"
proof -
  let ?P = "\<lambda>c. c \<noteq> CHR ''/''"
  let ?t = "rev (takeWhile ?P (rev p))"
  let ?h = "rev (dropWhile ?P (rev p))"
  have p: "p = ?h @ ?t"
    by (metis rev_append rev_rev_ident takeWhile_dropWhile_id)
  have "length p = length ?h + length ?t"
    using arg_cong [OF p, of length] by (simp only: length_append)
  then have l: "length p - length ?t = length ?h" by arith
  have tk: "\<And>A B :: string. take (length A) (A @ B) = A" by simp
  from tk [of ?h ?t] p have "take (length ?h) p = ?h" by metis
  with l have eq: "take (length p - length ?t) p = ?h" by (simp only:)
  show ?thesis by (simp only: path_split_def Let_def eq)
qed

lemma basename_no_slash: "CHR ''/'' \<notin> set (basename p)"
proof
  assume "CHR ''/'' \<in> set (basename p)"
  then have "CHR ''/'' \<in> set (takeWhile (\<lambda>c. c \<noteq> CHR ''/'') (rev p))"
    by (simp only: basename_def path_split_alt Let_def snd_conv set_rev)
  from set_takeWhileD [OF this] show False by blast
qed

lemma no_slash_split:
  assumes "CHR ''/'' \<notin> set q"
  shows "path_split q = ([], q)"
proof -
  let ?P = "\<lambda>c. c \<noteq> CHR ''/''"
  have all: "\<forall>c\<in>set (rev q). ?P c" using assms by auto
  have tw: "takeWhile ?P (rev q) = rev q"
    using all by (rule takeWhile_eq_all_conv [THEN iffD2])
  have dw: "dropWhile ?P (rev q) = []"
    using all by (simp only: dropWhile_eq_Nil_conv)
  show ?thesis by (simp add: path_split_alt Let_def tw dw del: takeWhile_eq_all_conv dropWhile_eq_Nil_conv)
qed

lemma dirname_basename: "dirname (basename p) = []"
  by (simp only: dirname_def no_slash_split [OF basename_no_slash] fst_conv)

lemma rstrip_slash_Nil:
  assumes "rstrip_slash h = []"
  shows "list_all (\<lambda>c. c = CHR ''/'') h"
proof -
  from assms have "dropWhile (\<lambda>c. c = CHR ''/'') (rev h) = []"
    by (simp only: rstrip_slash_def rev_is_Nil_conv)
  then have "\<forall>c\<in>set (rev h). c = CHR ''/''"
    by (simp only: dropWhile_eq_Nil_conv)
  then show ?thesis by (simp add: list_all_iff)
qed

lemma dirname_Nil_basename:
  assumes d: "dirname p = []"
  shows "basename p = p"
proof -
  let ?P = "\<lambda>c. c \<noteq> CHR ''/''"
  let ?h = "rev (dropWhile ?P (rev p))"
  have d': "(if ?h \<noteq> [] \<and> \<not> list_all (\<lambda>c. c = CHR ''/'') ?h then rstrip_slash ?h else ?h) = []"
    using d by (simp only: dirname_def path_split_alt Let_def fst_conv)
  have h: "?h = []"
  proof (rule ccontr)
    assume ne: "?h \<noteq> []"
    show False
    proof (cases "list_all (\<lambda>c. c = CHR ''/'') ?h")
      case True
      with d' ne show False by (simp only: not_True_eq_False simp_thms if_False)
    next
      case False
      with d' ne have "rstrip_slash ?h = []" by (simp only: simp_thms if_True)
      from rstrip_slash_Nil [OF this] False show False by blast
    qed
  qed
  then have "dropWhile ?P (rev p) = []" by (simp only: rev_is_Nil_conv)
  with takeWhile_dropWhile_id [of ?P "rev p"] have "takeWhile ?P (rev p) = rev p"
    by (simp only: append_Nil2)
  then show ?thesis by (simp only: basename_def path_split_alt Let_def snd_conv rev_rev_ident)
qed


subsection \<open>The messages\<close>

lemma fmt_directory: "py_format ''link: {1} exists and is a directory'' [x] = Inl IndexError"
  by (simp add: prepend_def)

lemma fmt_symlink:
  "py_format ''could not create a symlink at {1}.'' [''link'', x]
     = Inr (''could not create a symlink at '' @ x @ ''.'')"
  by (simp add: prepend_def)

lemma fmt_input:
  "py_format ''{0}: Input file '{1}' does not exist.'' [n, s]
     = Inr (n @ '': Input file '' @ [CHR 0x27] @ s @ [CHR 0x27] @ '' does not exist.'')"
  by (simp add: prepend_def)


subsection \<open>Links\<close>

lemma put_put: "put p v (put p w fs) = put p v fs"
  by (simp add: put_def)

lemma put_same: "lookup fs p = v \<Longrightarrow> p \<noteq> [] \<Longrightarrow> put p v fs = fs"
  by (auto simp: put_def lookup_def fun_upd_idem_iff)

lemma put_commute: "p \<noteq> q \<Longrightarrow> put p v (put q w fs) = put q w (put p v fs)"
  by (simp add: put_def fun_upd_twist)

lemma lookup_Some_nonempty: "lookup fs p = Some v \<Longrightarrow> p \<noteq> []"
  by (auto simp: lookup_def)

lemma create_link_dir_step:
  "dir_in_place fs (dirname output_fn) \<Longrightarrow>
   (if dirname output_fn \<noteq> []
    then bind (safe_create_directory (dirname output_fn)) (\<lambda>_. return ())
    else return ()) fs = (Inr (), fs)"
  by (auto simp: dir_in_place_def bind_def return_def)

lemma create_link_over_file:
  assumes "dir_in_place fs (dirname output_fn)" and "lookup fs output_fn = Some (File c t)"
  shows "create_link input_fn output_fn fs
           = (Inl (FileOperationError (''could not create a symlink at '' @ output_fn @ ''.'')), fs)"
proof -
  have "\<not> islink fs output_fn" "\<not> isdir fs output_fn" "exists fs output_fn"
    using assms(2) by (simp_all add: islink_def isdir_def exists_def stat_nonlink)
  then show ?thesis
    using create_link_dir_step [OF assms(1)]
    by (simp add: create_link_def bind_def raise_FileOperationError_def raise_def fmt_symlink
        del: py_format.simps)
qed

lemma create_link_over_directory:
  assumes "dir_in_place fs (dirname output_fn)" and "lookup fs output_fn = Some Dir"
  shows "create_link input_fn output_fn fs = (Inl IndexError, fs)"
proof -
  have "\<not> islink fs output_fn" "isdir fs output_fn"
    using assms(2) by (simp_all add: islink_def isdir_def stat_nonlink)
  then show ?thesis
    using create_link_dir_step [OF assms(1)]
    by (simp add: create_link_def bind_def raise_FileOperationError_def raise_def fmt_directory
        del: py_format.simps)
qed

lemma create_link_over_link:
  assumes ready: "dir_in_place fs (dirname output_fn)"
    and link: "islink fs output_fn"
    and sub: "dirname output_fn \<noteq> [] \<Longrightarrow>
              lookup fs (dirname output_fn) = Some Dir \<and> basename output_fn \<noteq> []
              \<and> lookup fs (basename output_fn) = None"
  shows "create_link input_fn output_fn fs = (Inr (), put output_fn (Some (Link input_fn)) fs)"
proof -
  from link obtain t where l: "lookup fs output_fn = Some (Link t)"
    by (auto simp: islink_def split: option.splits node.splits)
  then have ne: "output_fn \<noteq> []" by (rule lookup_Some_nonempty)
  let ?fs1 = "put output_fn None fs"
  have rm: "os_remove output_fn fs = (Inr (), ?fs1)"
    using l by (simp add: os_remove_def)
  show ?thesis
  proof (cases "dirname output_fn = []")
    case True
    then have b: "basename output_fn = output_fn" by (rule dirname_Nil_basename)
    have sl: "symlink output_fn input_fn ?fs1 = (Inr (), put output_fn (Some (Link input_fn)) fs)"
      using ne True
      by (simp add: symlink_def islink_def lookup_put os_symlink_def parent_ok_def put_put)
    have rn: "os_rename output_fn output_fn (put output_fn (Some (Link input_fn)) fs)
                = (Inr (), put output_fn (Some (Link input_fn)) fs)"
      using ne by (simp add: os_rename_def lookup_put)
    show ?thesis
      using create_link_dir_step [OF ready] link rm sl rn b ne
      by (simp add: create_link_def bind_def)
  next
    case False
    let ?d = "dirname output_fn" and ?b = "basename output_fn"
    from sub [OF False] have d: "lookup fs ?d = Some Dir" and bne: "?b \<noteq> []"
      and bn: "lookup fs ?b = None" by simp_all
    from d l have d_o: "?d \<noteq> output_fn" by auto
    from d bn have d_b: "?d \<noteq> ?b" by auto
    from l bn have b_o: "?b \<noteq> output_fn" by auto
    let ?fs2 = "put ?b (Some (Link input_fn)) ?fs1"
    have sl: "symlink ?b input_fn ?fs1 = (Inr (), ?fs2)"
      using bne bn b_o
      by (simp add: symlink_def islink_def lookup_put os_symlink_def parent_ok_def dirname_basename)
    have dir2: "isdir ?fs2 ?d"
      using d d_o d_b lookup_Some_nonempty [OF d]
      by (simp add: isdir_def stat_nonlink lookup_put)
    have rn: "os_rename ?b output_fn ?fs2
                = (Inr (), put output_fn (Some (Link input_fn)) (put ?b None ?fs2))"
      using bne ne b_o dir2
      by (simp add: os_rename_def lookup_put parent_ok_def)
    have "put ?b None ?fs2 = ?fs1"
      using bn bne b_o by (simp add: put_put put_same lookup_put)
    then have fin: "put output_fn (Some (Link input_fn)) (put ?b None ?fs2)
                      = put output_fn (Some (Link input_fn)) fs"
      by (simp add: put_put)
    show ?thesis
      using create_link_dir_step [OF ready] link rm sl rn fin bne
      by (simp add: create_link_def bind_def)
  qed
qed


text \<open>
  Claim C4, amended. The directory of the target is in place. If the target is a symbolic
  link (and, when it lies in another directory than the working directory, that directory
  is a real directory and the working directory has no entry under the target's last
  name, where the new link is built before it is renamed), the old link is removed and
  the target becomes a link to the input. If the target is a plain file, \<open>create_link\<close>
  raises \<open>FileOperationError\<close> and the file system is as before: the file is not
  removed. If the target is a directory, \<open>create_link\<close> raises and the file system is
  as before.
\<close>

theorem create_link_on_existing_target:
  assumes "dir_in_place fs (dirname output_fn)"
  shows "(islink fs output_fn
            \<and> (dirname output_fn = []
                 \<or> lookup fs (dirname output_fn) = Some Dir \<and> basename output_fn \<noteq> []
                   \<and> lookup fs (basename output_fn) = None)
          \<longrightarrow> create_link input_fn output_fn fs
                = (Inr (), put output_fn (Some (Link input_fn)) fs))
       \<and> (lookup fs output_fn = Some (File c t)
          \<longrightarrow> create_link input_fn output_fn fs
                = (Inl (FileOperationError (''could not create a symlink at '' @ output_fn @ ''.'')), fs))
       \<and> (lookup fs output_fn = Some Dir
          \<longrightarrow> (\<exists>e. create_link input_fn output_fn fs = (Inl e, fs)))"
proof (intro conjI impI)
  assume a: "islink fs output_fn
            \<and> (dirname output_fn = []
                 \<or> lookup fs (dirname output_fn) = Some Dir \<and> basename output_fn \<noteq> []
                   \<and> lookup fs (basename output_fn) = None)"
  then have "dirname output_fn \<noteq> [] \<Longrightarrow>
              lookup fs (dirname output_fn) = Some Dir \<and> basename output_fn \<noteq> []
              \<and> lookup fs (basename output_fn) = None" by blast
  with assms a show "create_link input_fn output_fn fs
                = (Inr (), put output_fn (Some (Link input_fn)) fs)"
    by (intro create_link_over_link) blast+
next
  assume "lookup fs output_fn = Some (File c t)"
  with assms show "create_link input_fn output_fn fs
                = (Inl (FileOperationError (''could not create a symlink at '' @ output_fn @ ''.'')), fs)"
    by (rule create_link_over_file)
next
  assume "lookup fs output_fn = Some Dir"
  with assms have "create_link input_fn output_fn fs = (Inl IndexError, fs)"
    by (rule create_link_over_directory)
  then show "\<exists>e. create_link input_fn output_fn fs = (Inl e, fs)" by blast
qed

lemma demo_build_in_place: "dir_in_place demo_fs ''build''"
proof -
  have parts: "makedirs_parts ''build'' = ([], ''build'')"
    by (simp add: makedirs_parts_def path_split_def)
  have "os_makedirs ''build'' demo_fs = (Inl (OSError EEXIST ''build''), demo_fs)"
    using os_makedirs_base [OF parts, of demo_fs] by (simp add: os_mkdir_def demo_build)
  then show ?thesis
    by (simp add: dir_in_place_def safe_create_directory_eq isdir_def stat_nonlink demo_build)
qed

lemma demo_dirnames:
  "dirname ''build/link'' = ''build''" "basename ''build/link'' = ''link''"
  "dirname ''build/plain'' = ''build''" "dirname ''build/dir'' = ''build''"
  "dirname ''out.txt'' = []" "dirname ''build/out.txt'' = ''build''"
  "dirname ''build/same.txt'' = ''build''"
  by (simp_all add: dirname_def basename_def path_split_def rstrip_slash_def)

lemma demo_lookups:
  "lookup demo_fs ''build/link'' = Some (Link ''../old.txt'')"
  "lookup demo_fs ''link'' = None"
  "lookup demo_fs ''build/plain'' = Some (File ''x'' 1)"
  "lookup demo_fs ''build/dir'' = Some Dir"
  "lookup demo_fs ''out.txt'' = None"
  "lookup demo_fs ''build/out.txt'' = Some (File ''old text'' 5)"
  "lookup demo_fs ''build/same.txt'' = Some (File ''new text'' 7)"
  by (simp_all add: lookup_def demo_fs_def)

theorem create_link_on_existing_target_witness:
  "dir_in_place demo_fs (dirname ''build/link'')
   \<and> islink demo_fs ''build/link''
   \<and> create_link ''src.txt'' ''build/link'' demo_fs
       = (Inr (), put ''build/link'' (Some (Link ''src.txt'')) demo_fs)
   \<and> lookup demo_fs ''build/dir'' = Some Dir
   \<and> (\<exists>e. create_link ''src.txt'' ''build/dir'' demo_fs = (Inl e, demo_fs))"
proof -
  have h1: "dir_in_place demo_fs (dirname ''build/link'')"
    and h2: "dir_in_place demo_fs (dirname ''build/dir'')"
    by (simp_all add: demo_dirnames demo_build_in_place)
  have h3: "islink demo_fs ''build/link''"
    by (simp add: islink_def demo_lookups)
  from create_link_on_existing_target [OF h1, of "''src.txt''"]
       create_link_on_existing_target [OF h2, of "''src.txt''"] h1 h3
  show ?thesis
    by (simp add: demo_dirnames demo_lookups demo_build)
qed

text \<open>
  Claim C4 says that a plain file at the target is removed and the link made. In
  \<open>demo_fs\<close> the plain file \<open>build/plain\<close> stays and the call raises.
\<close>

theorem create_link_refuses_plain_file:
  "lookup demo_fs ''build/plain'' = Some (File ''x'' 1)
   \<and> create_link ''src.txt'' ''build/plain'' demo_fs
       = (Inl (FileOperationError ''could not create a symlink at build/plain.''), demo_fs)"
proof -
  have h: "dir_in_place demo_fs (dirname ''build/plain'')"
    by (simp add: demo_dirnames demo_build_in_place)
  from create_link_over_file [OF h, of "''x''" 1 "''src.txt''"] show ?thesis
    by (simp add: demo_lookups)
qed

text \<open>A directory at the target: the message cannot be formatted.\<close>

lemma create_link_directory_example:
  "create_link ''src.txt'' ''build/dir'' demo_fs = (Inl IndexError, demo_fs)"
proof -
  have h: "dir_in_place demo_fs (dirname ''build/dir'')"
    by (simp add: demo_dirnames demo_build_in_place)
  from create_link_over_directory [OF h] show ?thesis
    by (simp add: demo_lookups)
qed


subsection \<open>Copies\<close>

lemma resolve_not_link: "resolve n fs p = Some k \<Longrightarrow> lookup fs k \<noteq> Some (Link t)"
proof (induction n arbitrary: p)
  case 0
  then show ?case by (auto split: option.splits node.splits)
next
  case (Suc n)
  then show ?case by (auto split: option.splits node.splits)
qed

lemma stat_not_link: "stat fs p \<noteq> Some (Link t)"
  by (auto simp: stat_def dest: resolve_not_link split: option.splits)

lemma isfile_iff: "isfile fs p \<longleftrightarrow> exists fs p \<and> \<not> isdir fs p"
proof (cases "stat fs p")
  case None
  then show ?thesis by (simp add: isfile_def exists_def isdir_def)
next
  case (Some a)
  show ?thesis
  proof (cases a)
    case (Link t)
    with Some stat_not_link [of fs p t] show ?thesis by simp
  qed (simp_all add: Some isfile_def exists_def isdir_def)
qed

lemma safe_create_directory_raises:
  "fst (safe_create_directory p fs) = Inl e \<Longrightarrow> e = AttributeError"
  by (auto simp: safe_create_directory_eq split: prod.splits sum.splits if_splits)

lemma read_file_raises: "fst (read_file p fs) = Inl e \<Longrightarrow> \<exists>n x. e = IOError n x"
  by (auto simp: read_file_def split: option.splits node.splits)

lemma write_file_raises: "fst (write_file p c fs) = Inl e \<Longrightarrow> \<exists>n x. e = IOError n x"
  by (auto simp: write_file_def split: option.splits if_splits)

lemma bind_raises:
  "fst (bind f g s) = Inl e \<Longrightarrow>
   fst (f s) = Inl e \<or> (\<exists>a. fst (f s) = Inr a \<and> fst (g a (snd (f s))) = Inl e)"
  by (cases "f s") (auto simp: bind_def split: sum.splits)

lemma copyfile_raises:
  "fst (copyfile s t fs) = Inl e \<Longrightarrow> (\<exists>x. e = ShutilError x) \<or> (\<exists>n x. e = IOError n x)"
  by (auto simp: copyfile_def split: if_splits dest!: bind_raises read_file_raises write_file_raises)

lemma md5_file_raises: "fst (md5_file p fs) = Inl e \<Longrightarrow> \<exists>n x. e = IOError n x"
  by (auto simp: md5_file_def return_def dest!: bind_raises read_file_raises)

lemma copy_always_missing_source:
  "\<not> isfile fs s \<Longrightarrow>
   copy_always s t name fs
     = (Inl (FileOperationError
          (py_str name @ '': Input file '' @ [CHR 0x27] @ s @ [CHR 0x27] @ '' does not exist.'')), fs)"
  by (simp add: copy_always_def raise_FileOperationError_def raise_def fmt_input
      del: py_format.simps)

lemma copy_if_needed_missing_source:
  "\<not> isfile fs s \<Longrightarrow>
   copy_if_needed s t name fs
     = (Inl (FileOperationError
          (py_str name @ '': Input file '' @ [CHR 0x27] @ s @ [CHR 0x27] @ '' does not exist.'')), fs)"
  by (simp add: copy_if_needed_def raise_FileOperationError_def raise_def fmt_input
      del: py_format.simps)

lemma copy_always_FileOperationError_iff:
  "(\<exists>msg. fst (copy_always s t name fs) = Inl (FileOperationError msg))
     \<longleftrightarrow> \<not> exists fs s \<or> isdir fs s"
proof (cases "isfile fs s")
  case False
  then show ?thesis
    by (auto simp: copy_always_missing_source isfile_iff)
next
  case True
  have "fst (copy_always s t name fs) \<noteq> Inl (FileOperationError msg)" for msg
  proof
    assume "fst (copy_always s t name fs) = Inl (FileOperationError msg)"
    with True have "fst (bind (safe_create_directory (dirname t)) (\<lambda>_. copyfile s t) fs)
                      = Inl (FileOperationError msg)"
      by (simp add: copy_always_def)
    from bind_raises [OF this] show False
      by (auto dest: safe_create_directory_raises copyfile_raises)
  qed
  with True show ?thesis by (auto simp: isfile_iff)
qed

lemma copy_if_needed_FileOperationError_iff:
  "(\<exists>msg. fst (copy_if_needed s t name fs) = Inl (FileOperationError msg))
     \<longleftrightarrow> \<not> exists fs s \<or> isdir fs s"
proof (cases "isfile fs s")
  case False
  then show ?thesis
    by (auto simp: copy_if_needed_missing_source isfile_iff)
next
  case True
  then have nd: "\<not> isdir fs s" by (simp add: isfile_iff)
  have "fst (copy_if_needed s t name fs) \<noteq> Inl (FileOperationError msg)" for msg
  proof
    assume a: "fst (copy_if_needed s t name fs) = Inl (FileOperationError msg)"
    show False
    proof (cases "isfile fs t")
      case False
      with a True nd have "fst (bind (safe_create_directory (dirname t)) (\<lambda>_. copyfile s t) fs)
                      = Inl (FileOperationError msg)"
        by (simp add: copy_if_needed_def)
      from bind_raises [OF this] show False
        by (auto dest: safe_create_directory_raises copyfile_raises)
    next
      case t: True
      with a True nd have "fst (bind (md5_file s) (\<lambda>a.
        bind (md5_file t) (\<lambda>b.
        if a = b then return () else copyfile s t)) fs) = Inl (FileOperationError msg)"
        by (simp add: copy_if_needed_def)
      from bind_raises [OF this] show False
        by (auto simp: return_def dest!: bind_raises md5_file_raises copyfile_raises split: if_splits)
    qed
  qed
  with True show ?thesis by (auto simp: isfile_iff)
qed


lemma dirname_Nil: "dirname [] = []"
  by (simp add: dirname_def path_split_def)

lemma bare_name_directory_step:
  "safe_create_directory [] fs = (Inl AttributeError, fs)"
proof -
  have parts: "makedirs_parts [] = ([], [])"
    by (simp add: makedirs_parts_def path_split_def)
  have "os_makedirs [] fs = (Inl (OSError ENOENT []), fs)"
    using os_makedirs_base [OF parts, of fs] by (simp add: os_mkdir_def)
  then show ?thesis
    by (simp add: safe_create_directory_eq isdir_def stat_nonlink lookup_Nil)
qed

text \<open>
  Claim C7 says that with a regular file as source and an absent target, the directory
  of the target is made (an existing one being accepted) and the copy follows. For a
  target in the working directory (a name without a directory part) both functions call
  \<open>safe_create_directory('')\<close>, which raises, and nothing is copied; \<open>create_link\<close>
  guards the same call with \<open>out_dirname != ''\<close>. The parts of the claim on a missing
  source hold: see \<open>copy_always_FileOperationError_iff\<close>,
  \<open>copy_if_needed_FileOperationError_iff\<close>, \<open>copy_always_missing_source\<close> and
  \<open>copy_if_needed_missing_source\<close>; so does the copy into a directory that exists or can
  be made: \<open>copy_into_existing_directory\<close>, \<open>copy_creates_missing_directories\<close>.
\<close>

theorem copy_to_bare_name_raises:
  assumes "isfile fs s" and "dirname t = []"
  shows "copy_always s t name fs = (Inl AttributeError, fs)
       \<and> (\<not> isfile fs t \<longrightarrow> copy_if_needed s t name fs = (Inl AttributeError, fs))"
  using assms
  by (simp add: copy_always_def copy_if_needed_def isfile_iff bind_def bare_name_directory_step)

theorem copy_to_bare_name_raises_witness:
  "isfile demo_fs ''src.txt'' \<and> dirname ''out.txt'' = [] \<and> lookup demo_fs ''out.txt'' = None
   \<and> copy_always ''src.txt'' ''out.txt'' (Some ''build'') demo_fs = (Inl AttributeError, demo_fs)
   \<and> copy_if_needed ''src.txt'' ''out.txt'' (Some ''build'') demo_fs = (Inl AttributeError, demo_fs)"
proof -
  have f: "isfile demo_fs ''src.txt''"
    by (simp add: isfile_def stat_nonlink demo_src)
  have nt: "\<not> isfile demo_fs ''out.txt''"
    by (simp add: isfile_def stat_nonlink demo_lookups)
  from copy_to_bare_name_raises [OF f demo_dirnames(5), of "Some ''build''"] f nt show ?thesis
    by (simp add: demo_lookups demo_dirnames)
qed

lemma copyfile_to_absent:
  assumes s: "lookup fs s = Some (File c m)" and t: "lookup fs t = None"
    and d: "dirname t \<noteq> []" "isdir fs (dirname t)"
  shows "copyfile s t fs = (Inr (), put t (Some (File c (now fs))) fs)"
proof -
  from d(1) have ne: "t \<noteq> []" by (auto simp: dirname_Nil)
  have "\<not> exists fs t" using t by (simp add: exists_def stat_nonlink)
  then have ns: "\<not> samefile fs s t" by (simp add: samefile_def)
  have r: "read_file s fs = (Inr c, fs)" using s by (simp add: read_file_def stat_nonlink)
  have w: "write_file t c fs = (Inr (), put t (Some (File c (now fs))) fs)"
    using t ne d by (simp add: write_file_def resolve_nonlink parent_ok_def)
  from ns r w show ?thesis by (simp add: copyfile_def bind_def)
qed

lemma copy_into_existing_directory:
  assumes s: "lookup fs s = Some (File c m)" and t: "lookup fs t = None"
    and d: "dirname t \<noteq> []" "isdir fs (dirname t)" "dir_in_place fs (dirname t)"
  shows "copy_always s t name fs = (Inr (), put t (Some (File c (now fs))) fs)"
    and "copy_if_needed s t name fs = (Inr (), put t (Some (File c (now fs))) fs)"
proof -
  have f: "isfile fs s" "\<not> isdir fs s" "\<not> isfile fs t"
    using s t by (simp_all add: isfile_def isdir_def stat_nonlink)
  from d have sc: "safe_create_directory (dirname t) fs = (Inr None, fs)"
    by (simp add: dir_in_place_def)
  from f sc copyfile_to_absent [OF s t d(1,2)]
  show "copy_always s t name fs = (Inr (), put t (Some (File c (now fs))) fs)"
    and "copy_if_needed s t name fs = (Inr (), put t (Some (File c (now fs))) fs)"
    by (simp_all add: copy_always_def copy_if_needed_def bind_def)
qed

subsection \<open>Fingerprints\<close>

lemma read_chunks_all: "0 < n \<Longrightarrow> read_chunks n rest fed = fed @ rest"
proof (induction n rest fed rule: read_chunks.induct)
  case (1 n rest fed)
  show ?case
  proof (cases "take n rest = []")
    case True
    with "1.prems" have "rest = []" by (cases rest) auto
    with True show ?thesis by (subst read_chunks.simps) simp
  next
    case False
    from "1.IH" [OF False "1.prems"] False show ?thesis
      by (subst read_chunks.simps) simp
  qed
qed

lemma md5_file_regular:
  "lookup fs p = Some (File c t) \<Longrightarrow> md5_file p fs = (Inr (md5_hexdigest c), fs)"
  by (simp add: md5_file_def bind_def return_def read_file_def stat_nonlink read_chunks_all)

lemma copy_if_needed_regular:
  assumes s: "lookup fs s = Some (File cs ts)" and t: "lookup fs t = Some (File ct tt)"
  shows "copy_if_needed s t name fs
           = (Inr (), if md5_hexdigest cs = md5_hexdigest ct then fs
                      else put t (Some (File cs (now fs))) fs)"
proof -
  have f: "isfile fs s" "\<not> isdir fs s" "isfile fs t"
    using s t by (simp_all add: isfile_def isdir_def stat_nonlink)
  have m: "md5_file s fs = (Inr (md5_hexdigest cs), fs)" "md5_file t fs = (Inr (md5_hexdigest ct), fs)"
    using s t by (simp_all add: md5_file_regular)
  show ?thesis
  proof (cases "md5_hexdigest cs = md5_hexdigest ct")
    case True
    with f m show ?thesis by (simp add: copy_if_needed_def bind_def return_def)
  next
    case False
    with s t have st: "s \<noteq> t" by auto
    have ns: "\<not> samefile fs s t"
      using s t st by (simp add: samefile_def resolve_nonlink)
    have r: "read_file s fs = (Inr cs, fs)" using s by (simp add: read_file_def stat_nonlink)
    have w: "write_file t cs fs = (Inr (), put t (Some (File cs (now fs))) fs)"
      using t lookup_Some_nonempty [OF t] by (simp add: write_file_def resolve_nonlink)
    from False f m ns r w show ?thesis
      by (simp add: copy_if_needed_def bind_def return_def copyfile_def)
  qed
qed

text \<open>
  Claim C3, amended. Source and target are regular files with contents \<open>cs\<close> and
  \<open>ct\<close>, whatever their modification times. \<open>copy_if_needed\<close> returns normally; it
  leaves the file system untouched exactly when the two MD5 fingerprints are equal, which
  is the case when the contents are identical; when the fingerprints differ the target
  holds the content of the source afterwards, and nothing else has changed.
\<close>

theorem copy_if_needed_writes_on_fingerprint_mismatch:
  assumes "lookup fs s = Some (File cs ts)" and "lookup fs t = Some (File ct tt)"
  shows "copy_if_needed s t name fs
           = (Inr (), if md5_hexdigest cs = md5_hexdigest ct then fs
                      else put t (Some (File cs (now fs))) fs)
       \<and> (snd (copy_if_needed s t name fs) = fs) = (md5_hexdigest cs = md5_hexdigest ct)
       \<and> (cs = ct \<longrightarrow> snd (copy_if_needed s t name fs) = fs)
       \<and> (md5_hexdigest cs \<noteq> md5_hexdigest ct \<longrightarrow>
            lookup (snd (copy_if_needed s t name fs)) t = Some (File cs (now fs)))"
proof -
  note eq = copy_if_needed_regular [OF assms]
  have ne: "t \<noteq> []" using assms(2) by (rule lookup_Some_nonempty)
  have "put t (Some (File cs (now fs))) fs \<noteq> fs" if "md5_hexdigest cs \<noteq> md5_hexdigest ct"
  proof
    assume "put t (Some (File cs (now fs))) fs = fs"
    then have "lookup (put t (Some (File cs (now fs))) fs) t = lookup fs t" by simp
    with ne assms(2) have "cs = ct" by (simp add: lookup_put)
    with that show False by simp
  qed
  with eq ne show ?thesis by (auto simp: lookup_put)
qed


text \<open>The test suite of RFC 1321, section A.5 (first strings).\<close>

lemma md5_test_suite:
  "md5_hexdigest [] = ''d41d8cd98f00b204e9800998ecf8427e''"
  "md5_hexdigest ''a'' = ''0cc175b9c0f1b6a831c399e269772661''"
  "md5_hexdigest ''abc'' = ''900150983cd24fb0d6963f7d28e17f72''"
  "md5_hexdigest ''message digest'' = ''f96b697d7cb7938d525a2f31aaf161d0''"
  by code_simp+

lemma md5_new_text: "md5_hexdigest ''new text'' = ''f39092e2b663fef60bc0097fe914066e''"
  by code_simp

lemma md5_old_text: "md5_hexdigest ''old text'' = ''bc077a5fc2053d51e43efc7e11a7b0e3''"
  by code_simp

lemma md5_collision_a: "md5_hexdigest collision_a = ''79054025255fb1a26e4bc422aef54eb4''"
  by code_simp

lemma md5_collision_b: "md5_hexdigest collision_b = ''79054025255fb1a26e4bc422aef54eb4''"
  by code_simp

lemma collision_differ: "collision_a \<noteq> collision_b"
  by code_simp

theorem copy_if_needed_writes_on_fingerprint_mismatch_witness:
  "lookup demo_fs ''src.txt'' = Some (File ''new text'' 10)
   \<and> lookup demo_fs ''build/out.txt'' = Some (File ''old text'' 5)
   \<and> lookup demo_fs ''build/same.txt'' = Some (File ''new text'' 7)
   \<and> copy_if_needed ''src.txt'' ''build/out.txt'' None demo_fs
       = (Inr (), put ''build/out.txt'' (Some (File ''new text'' 100)) demo_fs)
   \<and> copy_if_needed ''src.txt'' ''build/same.txt'' None demo_fs = (Inr (), demo_fs)"
proof -
  have n: "now demo_fs = 100" by (simp add: demo_fs_def)
  from copy_if_needed_writes_on_fingerprint_mismatch [OF demo_src demo_lookups(6), of None]
       copy_if_needed_writes_on_fingerprint_mismatch [OF demo_src demo_lookups(7), of None]
  show ?thesis
    by (simp add: demo_src demo_lookups md5_new_text md5_old_text n)
qed

text \<open>
  Claim C3 says that with differing content the target equals the source afterwards.
  The two files of \<open>collision_fs\<close> differ and have the same fingerprint: nothing is
  written.
\<close>

theorem colliding_content_is_not_copied:
  "collision_a \<noteq> collision_b
   \<and> lookup collision_fs ''a.bin'' = Some (File collision_a 1)
   \<and> lookup collision_fs ''b.bin'' = Some (File collision_b 2)
   \<and> copy_if_needed ''a.bin'' ''b.bin'' None collision_fs = (Inr (), collision_fs)"
proof -
  have a: "lookup collision_fs ''a.bin'' = Some (File collision_a 1)"
    and b: "lookup collision_fs ''b.bin'' = Some (File collision_b 2)"
    by (simp_all add: lookup_def collision_fs_def)
  from copy_if_needed_regular [OF a b, of None] a b collision_differ show ?thesis
    by (simp add: md5_collision_a md5_collision_b)
qed

lemma copy_creates_missing_directories:
  "copy_always ''src.txt'' ''new/deep/out.txt'' (Some ''build'') demo_fs
     = (Inr (), put ''new/deep/out.txt'' (Some (File ''new text'' 100))
                  (put ''new/deep'' (Some Dir) (put ''new'' (Some Dir) demo_fs)))"
proof -
  have l: "lookup demo_fs ''new'' = None" "lookup demo_fs ''new/deep'' = None"
    "lookup demo_fs ''new/deep/out.txt'' = None"
    by (simp_all add: lookup_def demo_fs_def)
  have p1: "makedirs_parts ''new'' = ([], ''new'')"
    and p2: "makedirs_parts ''new/deep'' = (''new'', ''deep'')"
    by (simp_all add: makedirs_parts_def path_split_def rstrip_slash_def)
  have d: "dirname ''new'' = []" "dirname ''new/deep'' = ''new''"
    "dirname ''new/deep/out.txt'' = ''new/deep''"
    by (simp_all add: dirname_def path_split_def rstrip_slash_def)
  let ?fs1 = "put ''new'' (Some Dir) demo_fs"
  let ?fs2 = "put ''new/deep'' (Some Dir) ?fs1"
  have m1: "os_makedirs ''new'' demo_fs = (Inr (), ?fs1)"
    using os_makedirs_base [OF p1, of demo_fs] by (simp add: os_mkdir_def l parent_ok_def d)
  have ne: "\<not> exists demo_fs ''new''"
    by (simp add: exists_def stat_nonlink l)
  have "os_mkdir ''new/deep'' ?fs1 = (Inr (), ?fs2)"
    by (simp add: os_mkdir_def lookup_put l parent_ok_def d isdir_def stat_nonlink)
  with os_makedirs_rec_ok [OF p2 _ m1] ne have m2: "os_makedirs ''new/deep'' demo_fs = (Inr (), ?fs2)"
    by simp
  have sc: "safe_create_directory ''new/deep'' demo_fs = (Inr (Some True), ?fs2)"
    by (simp add: safe_create_directory_eq m2)
  have s2: "lookup ?fs2 ''src.txt'' = Some (File ''new text'' 10)"
    "lookup ?fs2 ''new/deep/out.txt'' = None" "isdir ?fs2 (dirname ''new/deep/out.txt'')"
    "dirname ''new/deep/out.txt'' \<noteq> []"
    by (simp_all add: lookup_put demo_src l isdir_def stat_nonlink d)
  have n: "now ?fs2 = 100"
    by (simp add: now_put demo_fs_def)
  have f: "isfile demo_fs ''src.txt''"
    by (simp add: isfile_def stat_nonlink demo_src)
  from copyfile_to_absent [OF s2(1) s2(2) s2(4) s2(3)] n f sc show ?thesis
    by (simp add: copy_always_def bind_def d)
qed

end
